theory Spec2Isabelle
  imports Main "HOL-Library.Log_Nat" "HOL-Library.Multiset" "HOL-Library.Word"
begin

section \<open>JavaScript numbers\<close>

text \<open>
  The calculator of \<^verbatim>\<open>src/index.ts\<close> computes on JavaScript numbers, that is on
  IEEE-754 binary64 values.  Its branches test for the special values themselves
  (\<^verbatim>\<open>Number.isFinite\<close>, \<^verbatim>\<open>tps ?? NaN\<close>, truthiness of a number), so the model keeps
  them: a number is a finite rational, one of the two infinities, or NaN.  Finite
  arithmetic rounds to the nearest binary64 value, ties to even, with gradual underflow
  and overflow to infinity.  The sign of zero is not represented: the code never divides
  by a zero (every divisor is a literal or has passed \<^verbatim>\<open>requirePositive\<close>), and no
  other operation it uses can tell the two zeros apart.
\<close>

datatype number = Fin rat | PInf | NInf | NaN

definition rhe :: "rat \<Rightarrow> int" where
  \<comment> \<open>round to the nearest integer, ties to the even one\<close>
  "rhe y = (let f = \<lfloor>y\<rfloor>; d = y - of_int f
            in if d < 1 / 2 then f else if 1 / 2 < d then f + 1
               else if even f then f else f + 1)"

definition ilog2 :: "rat \<Rightarrow> int" where
  \<comment> \<open>the binary exponent \<open>e\<close> of a positive \<open>a\<close>: \<open>2 powi e \<le> a < 2 powi (e + 1)\<close>\<close>
  "ilog2 a = (if 1 \<le> a then bitlen \<lfloor>a\<rfloor> - 1 else - bitlen (\<lceil>1 / a\<rceil> - 1))"

definition quantum :: "rat \<Rightarrow> rat" where
  \<comment> \<open>the spacing of binary64 values around a positive \<open>a\<close> (53 significant bits,
      smallest exponent -1022)\<close>
  "quantum a = 2 powi (max (ilog2 a) (- 1022) - 52)"

definition round_magnitude :: "rat \<Rightarrow> rat" where
  \<comment> \<open>a positive \<open>a\<close> rounded to a multiple of its quantum\<close>
  "round_magnitude a = of_int (rhe (a / quantum a)) * quantum a"

definition rnd :: "rat \<Rightarrow> number" where
  \<comment> \<open>the binary64 value of an exact result; past the largest finite value, infinity\<close>
  "rnd x = (if x = 0 then Fin 0
            else let m = round_magnitude \<bar>x\<bar>
                 in if 2 ^ 1024 \<le> m then (if x < 0 then NInf else PInf)
                    else Fin (sgn x * m))"

definition representable :: "rat \<Rightarrow> bool" where
  "representable x = (rnd x = Fin x)"

fun negative :: "number \<Rightarrow> bool" where
  "negative (Fin x) = (x < 0)"
| "negative NInf = True"
| "negative PInf = False"
| "negative NaN = False"

fun num_add :: "number \<Rightarrow> number \<Rightarrow> number" where
  "num_add NaN b = NaN"
| "num_add a NaN = NaN"
| "num_add (Fin x) (Fin y) = rnd (x + y)"
| "num_add PInf NInf = NaN"
| "num_add NInf PInf = NaN"
| "num_add PInf b = PInf"
| "num_add NInf b = NInf"
| "num_add (Fin x) b = b"

fun num_mul :: "number \<Rightarrow> number \<Rightarrow> number" where
  "num_mul NaN b = NaN"
| "num_mul a NaN = NaN"
| "num_mul (Fin x) (Fin y) = rnd (x * y)"
| "num_mul a b = (if a = Fin 0 \<or> b = Fin 0 then NaN
                  else if negative a = negative b then PInf else NInf)"

fun num_div :: "number \<Rightarrow> number \<Rightarrow> number" where
  "num_div NaN b = NaN"
| "num_div a NaN = NaN"
| "num_div (Fin x) (Fin y) =
     (if y = 0 then (if x = 0 then NaN else if x < 0 then NInf else PInf)
      else rnd (x / y))"
| "num_div (Fin x) b = Fin 0"
| "num_div a (Fin y) = (if negative a = (y < 0) then PInf else NInf)"
| "num_div a b = NaN"

fun num_lt :: "number \<Rightarrow> number \<Rightarrow> bool" where
  "num_lt NaN b = False"
| "num_lt a NaN = False"
| "num_lt (Fin x) (Fin y) = (x < y)"
| "num_lt a NInf = False"
| "num_lt NInf b = True"
| "num_lt PInf b = False"
| "num_lt (Fin x) PInf = True"

definition num_le :: "number \<Rightarrow> number \<Rightarrow> bool" where
  "num_le a b = (a \<noteq> NaN \<and> b \<noteq> NaN \<and> \<not> num_lt b a)"

definition num_gt :: "number \<Rightarrow> number \<Rightarrow> bool" where
  "num_gt a b = num_lt b a"

definition num_ge :: "number \<Rightarrow> number \<Rightarrow> bool" where
  "num_ge a b = num_le b a"

definition Math_min :: "number \<Rightarrow> number \<Rightarrow> number" where
  "Math_min a b = (if a = NaN \<or> b = NaN then NaN else if num_lt b a then b else a)"

definition Math_max :: "number \<Rightarrow> number \<Rightarrow> number" where
  "Math_max a b = (if a = NaN \<or> b = NaN then NaN else if num_lt a b then b else a)"

fun Number_isFinite :: "number \<Rightarrow> bool" where
  "Number_isFinite (Fin x) = True"
| "Number_isFinite v = False"

definition truthy :: "number \<Rightarrow> bool" where
  \<comment> \<open>a number in a boolean position: \<open>0\<close> and \<open>NaN\<close> are falsy\<close>
  "truthy v = (v \<noteq> Fin 0 \<and> v \<noteq> NaN)"

section \<open>Strings\<close>

text \<open>
  A JavaScript string is a sequence of UTF-16 code units, here words of 16 bits.
  \<^verbatim>\<open>String.prototype.trim\<close> removes from both ends the code points that ECMAScript
  counts as white space or as line terminators: U+0009 to U+000D, U+0020, U+00A0,
  U+1680, U+2000 to U+200A, U+2028, U+2029, U+202F, U+205F, U+3000 and U+FEFF, each of
  them one code unit.  \<^verbatim>\<open>String.prototype.toLowerCase\<close> follows the Unicode case
  tables of the engine; it is taken from the host (\<open>host\<close> below).  The names in error
  messages and the \<^verbatim>\<open>precision\<close> and \<^verbatim>\<open>quantization\<close> labels, which the code
  tests for emptiness only, stay of type \<open>string\<close>.
\<close>

type_synonym jsstring = "16 word list"

definition js :: "string \<Rightarrow> jsstring" where
  \<comment> \<open>the JavaScript string of an ASCII literal\<close>
  "js s = map of_char s"

definition is_space :: "16 word \<Rightarrow> bool" where
  "is_space c = ((9 \<le> c \<and> c \<le> 13) \<or> c = 32 \<or> c = 160 \<or> c = 5760
                 \<or> (8192 \<le> c \<and> c \<le> 8202) \<or> c = 8232 \<or> c = 8233 \<or> c = 8239
                 \<or> c = 8287 \<or> c = 12288 \<or> c = 65279)"

definition trim :: "jsstring \<Rightarrow> jsstring" where
  "trim s = rev (dropWhile is_space (rev (dropWhile is_space s)))"

section \<open>Data model\<close>

datatype ModelCategory =
    ChatCompletions | TextCompletions | Embeddings | AudioTranscription
  | AudioTranslation | AudioSpeech | ImageGeneration | Ocr

text \<open>A timestamp is a \<^verbatim>\<open>Date\<close> or an epoch in milliseconds; the calculator only
  hands it to the resolver.\<close>

datatype timestamp = Date number | EpochMs number

text \<open>What a caller-supplied resolver hands back: a number, or a value whose
  \<^verbatim>\<open>typeof\<close> is not \<^verbatim>\<open>"number"\<close>.\<close>

datatype jsvalue = JSNumber number | JSOther

text \<open>The tables of the source are object literals, and \<^verbatim>\<open>table[key]\<close> also finds
  what an object literal inherits: the members of \<^verbatim>\<open>Object.prototype\<close>, which are
  functions (and, under \<^verbatim>\<open>__proto__\<close>, the prototype object itself).  So a value that
  the source declares a \<^verbatim>\<open>number\<close> or a \<^verbatim>\<open>RegionCode\<close> is at run time either of
  that type or such a member, named by its key.\<close>

datatype 'a runtime = Declared 'a | PrototypeMember jsstring

type_synonym GridIntensityResolver =
  "jsstring runtime option \<Rightarrow> timestamp option \<Rightarrow> jsvalue"

type_synonym GridCarbonIntensityMap = "jsstring \<rightharpoonup> number"

record EnergyInputs =
  energyKwh :: "number option"
  energyJoules :: "number option"

record EfficiencyOptions =
  pue :: "number option"
  overheadFactor :: "number option"
  efficiencyFactor :: "number option"
  batchSize :: "number option"
  precision :: "string option"
  quantization :: "string option"

text \<open>The tagged union \<^verbatim>\<open>Usage\<close>: one constructor for each interface, the fields in
  the order of the source, the optional \<^verbatim>\<open>processingTimeSeconds\<close> last.\<close>

datatype Usage =
    ChatCompletionUsage number number "number option"
  | TextCompletionUsage number number "number option"
  | EmbeddingsUsage number "number option"
  | OcrUsage number number "number option"
  | AudioTranscriptionUsage number "number option"
  | AudioTranslationUsage number "number option"
  | AudioSpeechUsage number "number option"
  | ImageGenerationUsage number number number "number option"

fun usage_category :: "Usage \<Rightarrow> ModelCategory" where
  "usage_category (ChatCompletionUsage i out t) = ChatCompletions"
| "usage_category (TextCompletionUsage i out t) = TextCompletions"
| "usage_category (EmbeddingsUsage i t) = Embeddings"
| "usage_category (OcrUsage i out t) = Ocr"
| "usage_category (AudioTranscriptionUsage a t) = AudioTranscription"
| "usage_category (AudioTranslationUsage a t) = AudioTranslation"
| "usage_category (AudioSpeechUsage a t) = AudioSpeech"
| "usage_category (ImageGenerationUsage w h n t) = ImageGeneration"

fun usage_processingTimeSeconds :: "Usage \<Rightarrow> number option" where
  "usage_processingTimeSeconds (ChatCompletionUsage i out t) = t"
| "usage_processingTimeSeconds (TextCompletionUsage i out t) = t"
| "usage_processingTimeSeconds (EmbeddingsUsage i t) = t"
| "usage_processingTimeSeconds (OcrUsage i out t) = t"
| "usage_processingTimeSeconds (AudioTranscriptionUsage a t) = t"
| "usage_processingTimeSeconds (AudioTranslationUsage a t) = t"
| "usage_processingTimeSeconds (AudioSpeechUsage a t) = t"
| "usage_processingTimeSeconds (ImageGenerationUsage w h n t) = t"

record ThroughputConfig =
  tokensPerSecond :: "number option"
  audioSecondsPerSecond :: "number option"
  pixelsPerSecond :: "number option"

record ImpactInputs =
  gpuPowerW :: number
  cpuPowerW :: "number option"
  networkPowerW :: "number option"
  modelParamsB :: "number option"
  region :: "jsstring option"
  gridCarbonIntensityGPerKwh :: "number option"
  timestamp :: "timestamp option"
  gridIntensityResolver :: "GridIntensityResolver option"
  processingTimeSeconds :: "number option"
  usage :: "Usage option"
  throughput :: "ThroughputConfig option"
  energy :: "EnergyInputs option"
  efficiency :: "EfficiencyOptions option"

record MinimalImpactInputs =
  gpuPowerW :: number
  processingTimeSeconds :: number
  region :: "jsstring option"
  gridCarbonIntensityGPerKwh :: "number option"
  efficiency :: "EfficiencyOptions option"
  energy :: "EnergyInputs option"
  timestamp :: "timestamp option"
  gridIntensityResolver :: "GridIntensityResolver option"

text \<open>The notes of a result are template strings over the computed numbers; the model
  keeps which note it is and the number it prints, not the \<^verbatim>\<open>toFixed\<close> rendering.
  The field \<^verbatim>\<open>notes\<close> of a result is \<open>note_list\<close> here.\<close>

datatype Note =
    BasePowerNote number
  | OverheadFactorNote number
  | PueNote number
  | EnergyOverrideNote
  | TimeAlongsideEnergyNote
  | UsageTimeAlongsideEnergyNote
  | NoTimeWithEnergyNote
  | GridIntensityNote "number runtime"
  | PrecisionNote string
  | QuantizationNote string

record ImpactResult =
  category :: "ModelCategory option"
  energyKwh :: number
  co2Grams :: number
  gridCarbonIntensityGPerKwh :: "number runtime"
  effectivePowerW :: number
  processingTimeSeconds :: number
  note_list :: "Note list"

record NumericRange =
  range_min :: number
  range_max :: number

record UncertaintyRanges =
  gpuPowerW :: "NumericRange option"
  pue :: "NumericRange option"
  overheadFactor :: "NumericRange option"
  efficiencyFactor :: "NumericRange option"
  tokensPerSecond :: "NumericRange option"
  audioSecondsPerSecond :: "NumericRange option"
  pixelsPerSecond :: "NumericRange option"

record ImpactRangeResult =
  base :: ImpactResult
  energyKwhMin :: number
  energyKwhMax :: number
  co2GramsMin :: number
  co2GramsMax :: number

record AggregateImpactResult =
  count :: nat
  energyKwh :: number
  co2Grams :: number

text \<open>Every \<^verbatim>\<open>throw new Error(...)\<close> of the source is a value: the field named by
  \<^verbatim>\<open>requirePositive\<close>, the missing-input error of \<^verbatim>\<open>estimateImpact\<close>, and the
  ordering error of \<^verbatim>\<open>validateRange\<close>.  The final
  \<^verbatim>\<open>throw new Error("Unsupported usage category.")\<close> of
  \<^verbatim>\<open>deriveProcessingTimeSeconds\<close> has no constructor: the eight cases of \<open>Usage\<close>
  are all handled before it.\<close>

datatype error =
    MustBePositive string
  | NothingToComputeFrom
  | MaxBelowMin string

text \<open>What a call does besides returning: it may invoke the resolver and it may warn
  on the console.\<close>

datatype event =
    ResolverCalled "jsstring runtime option" "timestamp option"
  | ConsoleWarn jsstring

definition and_then :: "error + 'a \<Rightarrow> ('a \<Rightarrow> error + 'b) \<Rightarrow> error + 'b" where
  "and_then r k = (case r of Inl e \<Rightarrow> Inl e | Inr v \<Rightarrow> k v)"


section \<open>Region normalisation and grid intensity\<close>

text \<open>
  Three things the resolution of a region uses are not in the source: the \<^verbatim>\<open>values\<close>
  object of \<^verbatim>\<open>./data/grid-carbon-intensity.2025.json\<close>, which
  \<^verbatim>\<open>DEFAULT_GRID_CARBON_G_PER_KWH\<close> spreads over the built-in table; the engine's
  \<^verbatim>\<open>String.prototype.toLowerCase\<close>; and the string the engine gives for a member of
  \<^verbatim>\<open>Object.prototype\<close> (for a native function its text is left to the engine), which
  is the property key when such a member is used as an index.  They are the three fields
  of the host \<open>env\<close>, a parameter of everything that resolves a region.
\<close>

record host =
  datasetValues :: GridCarbonIntensityMap
  toLowerCase :: "jsstring \<Rightarrow> jsstring"
  memberToString :: "jsstring \<Rightarrow> jsstring"

definition BASE_GRID_CARBON_G_PER_KWH :: GridCarbonIntensityMap where
  "BASE_GRID_CARBON_G_PER_KWH = map_of
     [(js ''global'', Fin 475), (js ''us'', Fin 400), (js ''ca'', Fin 130),
      (js ''jp'', Fin 470), (js ''sg'', Fin 470), (js ''au'', Fin 600),
      (js ''in'', Fin 700), (js ''br'', Fin 80)]"

definition DEFAULT_GRID_CARBON_G_PER_KWH :: "host \<Rightarrow> GridCarbonIntensityMap" where
  "DEFAULT_GRID_CARBON_G_PER_KWH env = BASE_GRID_CARBON_G_PER_KWH ++ datasetValues env"

definition REGION_ALIASES :: "jsstring \<rightharpoonup> jsstring" where
  "REGION_ALIASES = map_of
     [(js ''gb'', js ''uk''), (js ''united kingdom'', js ''uk''), (js ''usa'', js ''us''),
      (js ''us-east'', js ''us''), (js ''us-west'', js ''us''),
      (js ''us-central'', js ''us''), (js ''eu-west'', js ''eu''),
      (js ''eu-central'', js ''eu''), (js ''europe'', js ''eu''),
      (js ''eu (ember)'', js ''eu''),
      (js ''czechia'', js ''cz''), (js ''switzerland'', js ''ch''),
      (js ''turkey'', js ''tr''), (js ''kosovo'', js ''xk''),
      (js ''north macedonia'', js ''mk''), (js ''montenegro'', js ''me''),
      (js ''serbia'', js ''rs''), (js ''bosnia and herzegovina'', js ''ba''),
      (js ''is'', js ''eu''),
      (js ''cn'', js ''global''), (js ''kr'', js ''global''), (js ''mx'', js ''global''),
      (js ''za'', js ''global''), (js ''ae'', js ''global''), (js ''sa'', js ''global''),
      (js ''nz'', js ''global''), (js ''il'', js ''global''), (js ''ar'', js ''global''),
      (js ''cl'', js ''global''), (js ''co'', js ''global''), (js ''pe'', js ''global''),
      (js ''id'', js ''global''), (js ''th'', js ''global''), (js ''vn'', js ''global''),
      (js ''ph'', js ''global''), (js ''my'', js ''global''), (js ''tw'', js ''global''),
      (js ''hk'', js ''global''), (js ''pk'', js ''global''), (js ''bd'', js ''global''),
      (js ''ng'', js ''global''), (js ''eg'', js ''global''), (js ''ke'', js ''global''),
      (js ''ma'', js ''global''), (js ''tn'', js ''global''), (js ''dz'', js ''global'')]"

text \<open>The property names of \<^verbatim>\<open>Object.prototype\<close>, and the value of \<^verbatim>\<open>table[key]\<close>
  for an object literal whose own properties are \<open>table\<close>: the own property when there
  is one, else the inherited member when the key names one, else \<^verbatim>\<open>undefined\<close>.\<close>

definition Object_prototype :: "jsstring list" where
  "Object_prototype = map js
     [''constructor'', ''hasOwnProperty'', ''isPrototypeOf'', ''propertyIsEnumerable'',
      ''toLocaleString'', ''toString'', ''valueOf'', ''__proto__'',
      ''__defineGetter__'', ''__defineSetter__'', ''__lookupGetter__'',
      ''__lookupSetter__'']"

definition property :: "(jsstring \<rightharpoonup> 'a) \<Rightarrow> jsstring \<Rightarrow> 'a runtime option" where
  "property table key =
     (case table key of
        Some v \<Rightarrow> Some (Declared v)
      | None \<Rightarrow> if key \<in> set Object_prototype then Some (PrototypeMember key) else None)"

definition truthy_opt :: "number option \<Rightarrow> bool" where
  \<comment> \<open>an optional number in a boolean position: \<open>undefined\<close> is falsy\<close>
  "truthy_opt v = (case v of None \<Rightarrow> False | Some x \<Rightarrow> truthy x)"

fun truthy_entry :: "number runtime option \<Rightarrow> bool" where
  \<comment> \<open>what a table lookup gave, in a boolean position: a function or an object is truthy\<close>
  "truthy_entry None = False"
| "truthy_entry (Some (Declared v)) = truthy v"
| "truthy_entry (Some (PrototypeMember m)) = True"

fun truthy_region :: "jsstring runtime \<Rightarrow> bool" where
  \<comment> \<open>a normalised region in a boolean position: the empty string is falsy\<close>
  "truthy_region (Declared k) = (k \<noteq> [])"
| "truthy_region (PrototypeMember m) = True"

fun toPropertyKey :: "host \<Rightarrow> jsstring runtime \<Rightarrow> jsstring" where
  \<comment> \<open>a normalised region used as an index\<close>
  "toPropertyKey env (Declared k) = k"
| "toPropertyKey env (PrototypeMember m) = memberToString env m"

fun toNumber :: "number runtime \<Rightarrow> number" where
  \<comment> \<open>an intensity as an operand of \<^verbatim>\<open>*\<close>: a function or an object converts to NaN\<close>
  "toNumber (Declared v) = v"
| "toNumber (PrototypeMember m) = NaN"

definition normalizeRegion :: "host \<Rightarrow> jsstring option \<Rightarrow> jsstring runtime option" where
  "normalizeRegion env rg =
     (case rg of
        None \<Rightarrow> None
      | Some r \<Rightarrow>
          if r = [] then None
          else let key = trim (toLowerCase env r)
               in if truthy_entry (property (DEFAULT_GRID_CARBON_G_PER_KWH env) key)
                  then Some (Declared key)
                  else property REGION_ALIASES key)"

definition resolveGridIntensity ::
  "host \<Rightarrow> jsstring option \<Rightarrow> number option \<Rightarrow>
     GridIntensityResolver option \<Rightarrow> timestamp option \<Rightarrow> number runtime \<times> event list" where
  "resolveGridIntensity env rg gci resolver ts =
     (let explicit = (case gci of
                        Some v \<Rightarrow> if num_gt v (Fin 0) then Some v else None
                      | None \<Rightarrow> None);
          normalizedRegion = normalizeRegion env rg;
          calls = (case resolver of
                     Some f \<Rightarrow> [ResolverCalled normalizedRegion ts]
                   | None \<Rightarrow> []);
          resolved = (case resolver of
                        Some f \<Rightarrow>
                          (case f normalizedRegion ts of
                             JSNumber r \<Rightarrow> if num_gt r (Fin 0) then Some r else None
                           | JSOther \<Rightarrow> None)
                      | None \<Rightarrow> None);
          listed = (case normalizedRegion of
                      Some k \<Rightarrow>
                        (let entry = property (DEFAULT_GRID_CARBON_G_PER_KWH env)
                                       (toPropertyKey env k)
                         in if truthy_region k \<and> truthy_entry entry then entry else None)
                    | None \<Rightarrow> None);
          warning = (case rg of
                       Some r \<Rightarrow> if r \<noteq> [] then [ConsoleWarn r] else []
                     | None \<Rightarrow> [])
      in case explicit of
           Some v \<Rightarrow> (Declared v, [])
         | None \<Rightarrow>
             (case resolved of
                Some r \<Rightarrow> (Declared r, calls)
              | None \<Rightarrow>
                  (case listed of
                     Some v \<Rightarrow> (v, calls)
                   | None \<Rightarrow>
                       (the (property (DEFAULT_GRID_CARBON_G_PER_KWH env) (js ''global'')),
                        calls @ warning))))"

section \<open>Validation, time, energy and power\<close>

definition DEFAULT_OVERHEAD :: number where
  "DEFAULT_OVERHEAD = Fin 1"

definition DEFAULT_PUE :: number where
  "DEFAULT_PUE = Fin 1"

definition clamp :: "number \<Rightarrow> number \<Rightarrow> number \<Rightarrow> number" where
  "clamp lo v hi = Math_max lo (Math_min v hi)"

definition requirePositive :: "string \<Rightarrow> number \<Rightarrow> error + unit" where
  "requirePositive name v =
     (if \<not> Number_isFinite v \<or> num_le v (Fin 0) then Inl (MustBePositive name)
      else Inr ())"

definition toKwhFromJoules :: "number \<Rightarrow> number" where
  "toKwhFromJoules joules = num_div joules (Fin 3600000)"

definition or_NaN :: "number option \<Rightarrow> number" where
  \<comment> \<open>\<^verbatim>\<open>v ?? NaN\<close>\<close>
  "or_NaN v = (case v of None \<Rightarrow> NaN | Some x \<Rightarrow> x)"

definition deriveProcessingTimeSeconds ::
  "Usage \<Rightarrow> ThroughputConfig option \<Rightarrow> error + number" where
  "deriveProcessingTimeSeconds u tp =
     (case usage_processingTimeSeconds u of
        Some t \<Rightarrow> and_then (requirePositive ''processingTimeSeconds'' t) (\<lambda>_. Inr t)
      | None \<Rightarrow>
          (let tokenPair = (\<lambda>inputTokens outputTokens.
                 and_then (requirePositive ''inputTokens'' inputTokens) (\<lambda>_.
                 and_then (requirePositive ''outputTokens'' outputTokens) (\<lambda>_.
                 let tps = or_NaN (Option.bind tp ThroughputConfig.tokensPerSecond) in
                 and_then (requirePositive ''throughput.tokensPerSecond'' tps) (\<lambda>_.
                 Inr (num_div (num_add inputTokens outputTokens) tps)))));
               audio = (\<lambda>audioSeconds.
                 and_then (requirePositive ''audioSeconds'' audioSeconds) (\<lambda>_.
                 let aps = or_NaN (Option.bind tp ThroughputConfig.audioSecondsPerSecond) in
                 and_then (requirePositive ''throughput.audioSecondsPerSecond'' aps) (\<lambda>_.
                 Inr (num_div audioSeconds aps))))
           in case u of
                ChatCompletionUsage i out _ \<Rightarrow> tokenPair i out
              | TextCompletionUsage i out _ \<Rightarrow> tokenPair i out
              | OcrUsage i out _ \<Rightarrow> tokenPair i out
              | EmbeddingsUsage i _ \<Rightarrow>
                  and_then (requirePositive ''inputTokens'' i) (\<lambda>_.
                  let tps = or_NaN (Option.bind tp ThroughputConfig.tokensPerSecond) in
                  and_then (requirePositive ''throughput.tokensPerSecond'' tps) (\<lambda>_.
                  Inr (num_div i tps)))
              | AudioTranscriptionUsage a _ \<Rightarrow> audio a
              | AudioTranslationUsage a _ \<Rightarrow> audio a
              | AudioSpeechUsage a _ \<Rightarrow> audio a
              | ImageGenerationUsage w h n _ \<Rightarrow>
                  and_then (requirePositive ''width'' w) (\<lambda>_.
                  and_then (requirePositive ''height'' h) (\<lambda>_.
                  and_then (requirePositive ''images'' n) (\<lambda>_.
                  let pps = or_NaN (Option.bind tp ThroughputConfig.pixelsPerSecond) in
                  and_then (requirePositive ''throughput.pixelsPerSecond'' pps) (\<lambda>_.
                  let totalPixels = num_mul (num_mul w h) n in
                  Inr (num_div totalPixels pps)))))))"

definition resolveEnergyKwh :: "EnergyInputs option \<Rightarrow> number option" where
  "resolveEnergyKwh en =
     (case Option.bind en EnergyInputs.energyKwh of
        Some k \<Rightarrow>
          if truthy k \<and> num_gt k (Fin 0) then Some k
          else (case Option.bind en EnergyInputs.energyJoules of
                  Some j \<Rightarrow> if truthy j \<and> num_gt j (Fin 0)
                            then Some (toKwhFromJoules j) else None
                | None \<Rightarrow> None)
      | None \<Rightarrow>
          (case Option.bind en EnergyInputs.energyJoules of
             Some j \<Rightarrow> if truthy j \<and> num_gt j (Fin 0)
                       then Some (toKwhFromJoules j) else None
           | None \<Rightarrow> None))"

definition computeEffectivePowerW :: "ImpactInputs \<Rightarrow> error + number \<times> Note list" where
  "computeEffectivePowerW inp =
     and_then (requirePositive ''gpuPowerW'' (ImpactInputs.gpuPowerW inp)) (\<lambda>_.
     let cpu = (case ImpactInputs.cpuPowerW inp of None \<Rightarrow> Fin 0 | Some c \<Rightarrow> c);
         net = (case ImpactInputs.networkPowerW inp of None \<Rightarrow> Fin 0 | Some n \<Rightarrow> n)
     in
     and_then (if truthy cpu then requirePositive ''cpuPowerW'' cpu
               else Inr ()) (\<lambda>_.
     and_then (if truthy net then requirePositive ''networkPowerW'' net
               else Inr ()) (\<lambda>_.
     let basePowerW = num_add (num_add (ImpactInputs.gpuPowerW inp) cpu) net;
         overhead =
           clamp (rnd (1 / 10))
             (case Option.bind (ImpactInputs.efficiency inp) EfficiencyOptions.overheadFactor of
                None \<Rightarrow> DEFAULT_OVERHEAD | Some v \<Rightarrow> v)
             (Fin 10);
         pueFactor =
           clamp (Fin 1)
             (case Option.bind (ImpactInputs.efficiency inp) EfficiencyOptions.pue of
                None \<Rightarrow> DEFAULT_PUE | Some v \<Rightarrow> v)
             (Fin 3);
         effectivePower = num_mul (num_mul basePowerW overhead) pueFactor
     in Inr (effectivePower,
             [BasePowerNote basePowerW, OverheadFactorNote overhead, PueNote pueFactor]))))"

definition applyEfficiencyToTime :: "number \<Rightarrow> EfficiencyOptions option \<Rightarrow> error + number" where
  "applyEfficiencyToTime seconds eff =
     (case Option.bind eff EfficiencyOptions.efficiencyFactor of
        None \<Rightarrow> Inr seconds
      | Some f \<Rightarrow>
          if \<not> truthy f then Inr seconds
          else and_then (requirePositive ''efficiency.efficiencyFactor'' f) (\<lambda>_.
               Inr (num_div seconds f)))"

definition applyBatchSize :: "number \<Rightarrow> EfficiencyOptions option \<Rightarrow> error + number" where
  "applyBatchSize kwh eff =
     (case Option.bind eff EfficiencyOptions.batchSize of
        None \<Rightarrow> Inr kwh
      | Some b \<Rightarrow>
          if \<not> truthy b then Inr kwh
          else and_then (requirePositive ''efficiency.batchSize'' b) (\<lambda>_.
               Inr (num_div kwh b)))"


section \<open>The estimator\<close>

text \<open>
  \<^verbatim>\<open>estimateImpact\<close> in the order of the source: grid intensity, energy override,
  effective power (the first place that can throw), then the override path or the
  power and time path, the batch division and the carbon figure.  Of the effects of
  \<^verbatim>\<open>resolveGridIntensity\<close> the estimator's value keeps what it returns only.
\<close>

definition estimateImpact :: "host \<Rightarrow> ImpactInputs \<Rightarrow> error + ImpactResult" where
  "estimateImpact env inp =
     (let gridIntensity =
            fst (resolveGridIntensity env (ImpactInputs.region inp)
                   (ImpactInputs.gridCarbonIntensityGPerKwh inp)
                   (ImpactInputs.gridIntensityResolver inp) (ImpactInputs.timestamp inp));
          energyOverride = resolveEnergyKwh (ImpactInputs.energy inp)
      in
      and_then (computeEffectivePowerW inp) (\<lambda>(effectivePower, powerNotes).
      and_then
        (case energyOverride of
           Some e \<Rightarrow>
             (case ImpactInputs.processingTimeSeconds inp of
                Some t \<Rightarrow>
                  and_then (requirePositive ''processingTimeSeconds'' t) (\<lambda>_.
                  Inr (t, e, [EnergyOverrideNote, TimeAlongsideEnergyNote]))
              | None \<Rightarrow>
                  if truthy_opt (Option.bind (usage inp) usage_processingTimeSeconds)
                  then
                    (let t = the (Option.bind (usage inp) usage_processingTimeSeconds) in
                     and_then (requirePositive ''processingTimeSeconds'' t) (\<lambda>_.
                     Inr (t, e, [EnergyOverrideNote, UsageTimeAlongsideEnergyNote])))
                  else Inr (Fin 0, e, [EnergyOverrideNote, NoTimeWithEnergyNote]))
         | None \<Rightarrow>
             and_then
               (case ImpactInputs.processingTimeSeconds inp of
                  Some t \<Rightarrow>
                    and_then (requirePositive ''processingTimeSeconds'' t) (\<lambda>_. Inr t)
                | None \<Rightarrow>
                    (case usage inp of
                       Some u \<Rightarrow> deriveProcessingTimeSeconds u (throughput inp)
                     | None \<Rightarrow> Inl NothingToComputeFrom))
               (\<lambda>t.
             and_then (applyEfficiencyToTime t (ImpactInputs.efficiency inp)) (\<lambda>seconds.
             Inr (seconds,
                  num_div (num_div (num_mul effectivePower seconds) (Fin 3600)) (Fin 1000),
                  []))))
        (\<lambda>(seconds, kwh0, pathNotes).
      and_then (applyBatchSize kwh0 (ImpactInputs.efficiency inp)) (\<lambda>kwh.
      let co2 = num_mul kwh (toNumber gridIntensity) in
      Inr \<lparr>category = map_option usage_category (usage inp),
           ImpactResult.energyKwh = kwh,
           ImpactResult.co2Grams = co2,
           ImpactResult.gridCarbonIntensityGPerKwh = gridIntensity,
           effectivePowerW = effectivePower,
           ImpactResult.processingTimeSeconds = seconds,
           note_list =
             powerNotes @ pathNotes @ [GridIntensityNote gridIntensity]
             @ (case Option.bind (ImpactInputs.efficiency inp) precision of
                  Some p \<Rightarrow> if p \<noteq> [] then [PrecisionNote p] else []
                | None \<Rightarrow> [])
             @ (case Option.bind (ImpactInputs.efficiency inp) quantization of
                  Some q \<Rightarrow> if q \<noteq> [] then [QuantizationNote q] else []
                | None \<Rightarrow> [])\<rparr>))))"

definition estimateImpactMinimal ::
  "host \<Rightarrow> MinimalImpactInputs \<Rightarrow> error + ImpactResult" where
  "estimateImpactMinimal env inp =
     estimateImpact env
       \<lparr>ImpactInputs.gpuPowerW = MinimalImpactInputs.gpuPowerW inp,
        cpuPowerW = None, networkPowerW = None, modelParamsB = None,
        ImpactInputs.region = MinimalImpactInputs.region inp,
        ImpactInputs.gridCarbonIntensityGPerKwh =
          MinimalImpactInputs.gridCarbonIntensityGPerKwh inp,
        ImpactInputs.timestamp = MinimalImpactInputs.timestamp inp,
        ImpactInputs.gridIntensityResolver = MinimalImpactInputs.gridIntensityResolver inp,
        ImpactInputs.processingTimeSeconds =
          Some (MinimalImpactInputs.processingTimeSeconds inp),
        usage = None, throughput = None,
        ImpactInputs.energy = MinimalImpactInputs.energy inp,
        ImpactInputs.efficiency = MinimalImpactInputs.efficiency inp\<rparr>"

section \<open>Ranges and aggregation\<close>

datatype pick = PickMin | PickMax

definition validateRange :: "string \<Rightarrow> NumericRange option \<Rightarrow> error + unit" where
  "validateRange name rng =
     (case rng of
        None \<Rightarrow> Inr ()
      | Some r \<Rightarrow>
          and_then (requirePositive (name @ ''.min'') (range_min r)) (\<lambda>_.
          and_then (requirePositive (name @ ''.max'') (range_max r)) (\<lambda>_.
          if num_lt (range_max r) (range_min r) then Inl (MaxBelowMin name) else Inr ())))"

definition pickRangeValue :: "number option \<Rightarrow> NumericRange option \<Rightarrow> pick \<Rightarrow> number option" where
  "pickRangeValue v rng pk =
     (case rng of
        None \<Rightarrow> v
      | Some r \<Rightarrow> Some (if pk = PickMin then range_min r else range_max r))"

definition emptyThroughput :: ThroughputConfig where
  "emptyThroughput =
     \<lparr>ThroughputConfig.tokensPerSecond = None,
      ThroughputConfig.audioSecondsPerSecond = None,
      ThroughputConfig.pixelsPerSecond = None\<rparr>"

definition emptyEfficiency :: EfficiencyOptions where
  "emptyEfficiency =
     \<lparr>EfficiencyOptions.pue = None, EfficiencyOptions.overheadFactor = None,
      EfficiencyOptions.efficiencyFactor = None, batchSize = None,
      precision = None, quantization = None\<rparr>"

definition buildInputWithRanges :: "ImpactInputs \<Rightarrow> UncertaintyRanges \<Rightarrow> pick \<Rightarrow> ImpactInputs" where
  "buildInputWithRanges inp ranges pk =
     (let needsThroughput =
            (UncertaintyRanges.tokensPerSecond ranges \<noteq> None
             \<or> UncertaintyRanges.audioSecondsPerSecond ranges \<noteq> None
             \<or> UncertaintyRanges.pixelsPerSecond ranges \<noteq> None);
          needsEfficiency =
            (UncertaintyRanges.pue ranges \<noteq> None
             \<or> UncertaintyRanges.overheadFactor ranges \<noteq> None
             \<or> UncertaintyRanges.efficiencyFactor ranges \<noteq> None);
          tp = (case throughput inp of
                  Some t \<Rightarrow> Some t
                | None \<Rightarrow> if needsThroughput then Some emptyThroughput else None);
          eff = (case ImpactInputs.efficiency inp of
                   Some e \<Rightarrow> Some e
                 | None \<Rightarrow> if needsEfficiency then Some emptyEfficiency else None)
      in inp
          \<lparr>ImpactInputs.gpuPowerW :=
             the (pickRangeValue (Some (ImpactInputs.gpuPowerW inp))
                    (UncertaintyRanges.gpuPowerW ranges) pk),
           throughput :=
             map_option (\<lambda>t. t
               \<lparr>ThroughputConfig.tokensPerSecond :=
                  pickRangeValue (ThroughputConfig.tokensPerSecond t)
                    (UncertaintyRanges.tokensPerSecond ranges) pk,
                ThroughputConfig.audioSecondsPerSecond :=
                  pickRangeValue (ThroughputConfig.audioSecondsPerSecond t)
                    (UncertaintyRanges.audioSecondsPerSecond ranges) pk,
                ThroughputConfig.pixelsPerSecond :=
                  pickRangeValue (ThroughputConfig.pixelsPerSecond t)
                    (UncertaintyRanges.pixelsPerSecond ranges) pk\<rparr>) tp,
           ImpactInputs.efficiency :=
             map_option (\<lambda>e. e
               \<lparr>EfficiencyOptions.pue :=
                  pickRangeValue (EfficiencyOptions.pue e) (UncertaintyRanges.pue ranges) pk,
                EfficiencyOptions.overheadFactor :=
                  pickRangeValue (EfficiencyOptions.overheadFactor e)
                    (UncertaintyRanges.overheadFactor ranges) pk,
                EfficiencyOptions.efficiencyFactor :=
                  pickRangeValue (EfficiencyOptions.efficiencyFactor e)
                    (UncertaintyRanges.efficiencyFactor ranges) pk\<rparr>) eff\<rparr>)"

definition aggregateImpacts :: "ImpactResult list \<Rightarrow> AggregateImpactResult" where
  "aggregateImpacts results =
     foldl (\<lambda>acc result.
              \<lparr>count = count acc + 1,
               AggregateImpactResult.energyKwh =
                 num_add (AggregateImpactResult.energyKwh acc) (ImpactResult.energyKwh result),
               AggregateImpactResult.co2Grams =
                 num_add (AggregateImpactResult.co2Grams acc) (ImpactResult.co2Grams result)\<rparr>)
       \<lparr>count = 0, AggregateImpactResult.energyKwh = Fin 0,
        AggregateImpactResult.co2Grams = Fin 0\<rparr>
       results"

definition hasEnergyOverride :: "ImpactInputs \<Rightarrow> bool" where
  "hasEnergyOverride inp =
     (truthy_opt (Option.bind (ImpactInputs.energy inp) EnergyInputs.energyKwh)
      \<or> truthy_opt (Option.bind (ImpactInputs.energy inp) EnergyInputs.energyJoules))"

definition estimateImpactRange ::
  "host \<Rightarrow> ImpactInputs \<Rightarrow> UncertaintyRanges \<Rightarrow> error + ImpactRangeResult" where
  "estimateImpactRange env inp ranges =
     and_then (validateRange ''gpuPowerW'' (UncertaintyRanges.gpuPowerW ranges)) (\<lambda>_.
     and_then (validateRange ''pue'' (UncertaintyRanges.pue ranges)) (\<lambda>_.
     and_then (validateRange ''overheadFactor'' (UncertaintyRanges.overheadFactor ranges)) (\<lambda>_.
     and_then (validateRange ''efficiencyFactor'' (UncertaintyRanges.efficiencyFactor ranges)) (\<lambda>_.
     and_then (validateRange ''tokensPerSecond'' (UncertaintyRanges.tokensPerSecond ranges)) (\<lambda>_.
     and_then (validateRange ''audioSecondsPerSecond''
                 (UncertaintyRanges.audioSecondsPerSecond ranges)) (\<lambda>_.
     and_then (validateRange ''pixelsPerSecond'' (UncertaintyRanges.pixelsPerSecond ranges)) (\<lambda>_.
     and_then (estimateImpact env inp) (\<lambda>b.
     if hasEnergyOverride inp then
       Inr \<lparr>base = b,
            energyKwhMin = ImpactResult.energyKwh b,
            energyKwhMax = ImpactResult.energyKwh b,
            co2GramsMin = ImpactResult.co2Grams b,
            co2GramsMax = ImpactResult.co2Grams b\<rparr>
     else
       and_then (estimateImpact env (buildInputWithRanges inp ranges PickMin)) (\<lambda>low.
       and_then (estimateImpact env (buildInputWithRanges inp ranges PickMax)) (\<lambda>high.
       Inr \<lparr>base = b,
            energyKwhMin = Math_min (ImpactResult.energyKwh low) (ImpactResult.energyKwh high),
            energyKwhMax = Math_max (ImpactResult.energyKwh low) (ImpactResult.energyKwh high),
            co2GramsMin = Math_min (ImpactResult.co2Grams low) (ImpactResult.co2Grams high),
            co2GramsMax = Math_max (ImpactResult.co2Grams low) (ImpactResult.co2Grams high)\<rparr>))))))))))"


section \<open>Predicates and sample data used in the statements\<close>

definition positive :: "number \<Rightarrow> bool" where
  \<comment> \<open>what \<^verbatim>\<open>requirePositive\<close> accepts: a finite number above zero\<close>
  "positive v = (Number_isFinite v \<and> num_gt v (Fin 0))"

definition validateRanges :: "UncertaintyRanges \<Rightarrow> error + unit" where
  \<comment> \<open>the seven \<^verbatim>\<open>validateRange\<close> calls that open \<^verbatim>\<open>estimateImpactRange\<close>\<close>
  "validateRanges ranges =
     and_then (validateRange ''gpuPowerW'' (UncertaintyRanges.gpuPowerW ranges)) (\<lambda>_.
     and_then (validateRange ''pue'' (UncertaintyRanges.pue ranges)) (\<lambda>_.
     and_then (validateRange ''overheadFactor'' (UncertaintyRanges.overheadFactor ranges)) (\<lambda>_.
     and_then (validateRange ''efficiencyFactor'' (UncertaintyRanges.efficiencyFactor ranges)) (\<lambda>_.
     and_then (validateRange ''tokensPerSecond'' (UncertaintyRanges.tokensPerSecond ranges)) (\<lambda>_.
     and_then (validateRange ''audioSecondsPerSecond''
                 (UncertaintyRanges.audioSecondsPerSecond ranges)) (\<lambda>_.
     validateRange ''pixelsPerSecond'' (UncertaintyRanges.pixelsPerSecond ranges)))))))"

definition noRanges :: UncertaintyRanges where
  "noRanges =
     \<lparr>UncertaintyRanges.gpuPowerW = None, UncertaintyRanges.pue = None,
      UncertaintyRanges.overheadFactor = None, UncertaintyRanges.efficiencyFactor = None,
      UncertaintyRanges.tokensPerSecond = None,
      UncertaintyRanges.audioSecondsPerSecond = None,
      UncertaintyRanges.pixelsPerSecond = None\<rparr>"

definition sampleValues :: GridCarbonIntensityMap where
  \<comment> \<open>a small dataset: the figures the documentation quotes for three regions\<close>
  "sampleValues =
     map_of [(js ''eu'', rnd (21021 / 100)), (js ''no'', Fin 29), (js ''uk'', Fin 217)]"

definition lowerASCII :: "jsstring \<Rightarrow> jsstring" where
  \<comment> \<open>\<^verbatim>\<open>toLowerCase\<close> on the ASCII letters: \<open>A\<close> to \<open>Z\<close> become \<open>a\<close> to \<open>z\<close>, every
      other code unit stays.  The engine does the same on the sample strings below, whose
      only letters are ASCII\<close>
  "lowerASCII s = map (\<lambda>c. if 65 \<le> c \<and> c \<le> 90 then c + 32 else c) s"

definition nativeText :: "jsstring \<Rightarrow> jsstring" where
  \<comment> \<open>the string of a member of \<^verbatim>\<open>Object.prototype\<close> as V8 gives it\<close>
  "nativeText m =
     (if m = js ''__proto__'' then js ''[object Object]''
      else js ''function '' @ (if m = js ''constructor'' then js ''Object'' else m)
           @ js ''() { [native code] }'')"

definition sampleHost :: host where
  "sampleHost =
     \<lparr>datasetValues = sampleValues, toLowerCase = lowerASCII,
      memberToString = nativeText\<rparr>"

definition sampleInput :: ImpactInputs where
  \<comment> \<open>\<^verbatim>\<open>{ gpuPowerW: 350, region: "eu", usage: usage.chat(1000, 200),
      throughput: { tokensPerSecond: 100 } }\<close>\<close>
  "sampleInput =
     \<lparr>ImpactInputs.gpuPowerW = Fin 350, cpuPowerW = None, networkPowerW = None,
      modelParamsB = None, ImpactInputs.region = Some (js ''eu''),
      ImpactInputs.gridCarbonIntensityGPerKwh = None, ImpactInputs.timestamp = None,
      ImpactInputs.gridIntensityResolver = None, ImpactInputs.processingTimeSeconds = None,
      usage = Some (ChatCompletionUsage (Fin 1000) (Fin 200) None),
      throughput = Some (emptyThroughput\<lparr>ThroughputConfig.tokensPerSecond := Some (Fin 100)\<rparr>),
      ImpactInputs.energy = None, ImpactInputs.efficiency = None\<rparr>"

definition basePower :: "ImpactInputs \<Rightarrow> number" where
  \<comment> \<open>\<open>gpuPowerW + cpuPowerW + networkPowerW\<close>, an omitted summand counting as zero\<close>
  "basePower inp =
     num_add (num_add (ImpactInputs.gpuPowerW inp)
                (case ImpactInputs.cpuPowerW inp of None \<Rightarrow> Fin 0 | Some c \<Rightarrow> c))
       (case ImpactInputs.networkPowerW inp of None \<Rightarrow> Fin 0 | Some n \<Rightarrow> n)"

definition clampedTo :: "number \<Rightarrow> number \<Rightarrow> number \<Rightarrow> number" where
  \<comment> \<open>a value clamped to the interval from \<open>lo\<close> to \<open>hi\<close>: \<open>lo\<close> when it is below,
      \<open>hi\<close> when it is above, else itself\<close>
  "clampedTo lo hi v = (if num_lt v lo then lo else if num_lt hi v then hi else v)"

definition statedOverheadFactor :: "number option \<Rightarrow> number" where
  \<comment> \<open>\<open>overheadFactor\<close> as the specification states it: 1.0 when omitted, clamped to
      [0.1, 10] (\<open>rnd (1 / 10)\<close> is the number that the literal 0.1 denotes)\<close>
  "statedOverheadFactor v =
     clampedTo (rnd (1 / 10)) (Fin 10) (case v of None \<Rightarrow> Fin 1 | Some x \<Rightarrow> x)"

definition statedPue :: "number option \<Rightarrow> number" where
  \<comment> \<open>\<open>pue\<close> as the specification states it: 1.0 when omitted, clamped to [1.0, 3.0]\<close>
  "statedPue v = clampedTo (Fin 1) (Fin 3) (case v of None \<Rightarrow> Fin 1 | Some x \<Rightarrow> x)"

definition statedPower :: "ImpactInputs \<Rightarrow> number" where
  \<comment> \<open>the specification's formula
      \<open>(gpuPowerW + cpuPowerW + networkPowerW) * overheadFactor * pue\<close>, evaluated from
      left to right\<close>
  "statedPower inp =
     num_mul
       (num_mul (basePower inp)
          (statedOverheadFactor
             (Option.bind (ImpactInputs.efficiency inp) EfficiencyOptions.overheadFactor)))
       (statedPue (Option.bind (ImpactInputs.efficiency inp) EfficiencyOptions.pue))"

definition acceptedPower :: "number option \<Rightarrow> bool" where
  \<comment> \<open>a \<open>cpuPowerW\<close> or \<open>networkPowerW\<close> that the power model lets through: omitted, or
      not both truthy and other than a finite number above zero\<close>
  "acceptedPower v = (case v of None \<Rightarrow> True | Some x \<Rightarrow> \<not> truthy x \<or> positive x)"

definition withOverhead :: "ImpactInputs \<Rightarrow> EfficiencyOptions \<Rightarrow> number \<Rightarrow> ImpactInputs" where
  \<comment> \<open>the input with \<open>efficiency\<close> set to \<open>e\<close> and its \<open>overheadFactor\<close> to \<open>v\<close>\<close>
  "withOverhead inp e v =
     inp\<lparr>ImpactInputs.efficiency := Some (e\<lparr>EfficiencyOptions.overheadFactor := Some v\<rparr>)\<rparr>"

definition tokenUsage :: "Usage \<Rightarrow> number \<Rightarrow> number \<Rightarrow> bool" where
  \<comment> \<open>a chat, text or OCR usage with these token counts and no time of its own\<close>
  "tokenUsage u i out =
     (u = ChatCompletionUsage i out None \<or> u = TextCompletionUsage i out None
      \<or> u = OcrUsage i out None)"

definition powerInput :: ImpactInputs where
  "powerInput = withOverhead
     (sampleInput\<lparr>cpuPowerW := Some (Fin 50), networkPowerW := Some (Fin 20)\<rparr>)
     (emptyEfficiency\<lparr>EfficiencyOptions.pue := Some (Fin 2)\<rparr>) (Fin 20)"

definition efficiencyInput :: ImpactInputs where
  "efficiencyInput = sampleInput\<lparr>ImpactInputs.efficiency :=
     Some (emptyEfficiency\<lparr>EfficiencyOptions.efficiencyFactor := Some (Fin 2)\<rparr>)\<rparr>"

definition efficiencyResult :: ImpactResult where
  "efficiencyResult =
     \<lparr>category = Some ChatCompletions,
      ImpactResult.energyKwh = Fin (5380300354831953 / 9223372036854775808),
      ImpactResult.co2Grams = Fin (8835882324915819 / 72057594037927936),
      ImpactResult.gridCarbonIntensityGPerKwh = Declared (Fin (7396106856793375 / 35184372088832)),
      effectivePowerW = Fin 350, ImpactResult.processingTimeSeconds = Fin 6,
      note_list =
        [BasePowerNote (Fin 350), OverheadFactorNote (Fin 1), PueNote (Fin 1),
         GridIntensityNote (Declared (Fin (7396106856793375 / 35184372088832)))]\<rparr>"






definition notNegative :: "number \<Rightarrow> bool" where
  \<comment> \<open>\<open>v < 0\<close> is false: \<open>v\<close> is zero or more, or \<open>NaN\<close>\<close>
  "notNegative v = (\<not> num_lt v (Fin 0))"

definition positiveEntries :: "host \<Rightarrow> bool" where
  \<comment> \<open>every entry of the dataset is above zero\<close>
  "positiveEntries env = (\<forall>k v. datasetValues env k = Some v \<longrightarrow> num_gt v (Fin 0))"

definition ordinary :: "number \<Rightarrow> bool" where
  \<comment> \<open>zero or more, and not \<open>NaN\<close>\<close>
  "ordinary v = num_le (Fin 0) v"

definition rejected :: "number \<Rightarrow> bool" where
  \<comment> \<open>a number that is truthy and not positive: below zero, or infinite\<close>
  "rejected v = (num_lt v (Fin 0) \<or> v = PInf)"

definition globalIntensity :: "host \<Rightarrow> number runtime" where
  \<comment> \<open>the global fallback: the table's entry for \<open>global\<close>\<close>
  "globalIntensity env = the (property (DEFAULT_GRID_CARBON_G_PER_KWH env) (js ''global''))"

definition tableIntensity :: "host \<Rightarrow> jsstring option \<Rightarrow> number runtime" where
  \<comment> \<open>the region-table lookup and then the global fallback: the table's entry for the
      normalised region when the region and the entry are both truthy, else the global
      fallback\<close>
  "tableIntensity env rg =
     (case normalizeRegion env rg of
        None \<Rightarrow> globalIntensity env
      | Some k \<Rightarrow>
          (case property (DEFAULT_GRID_CARBON_G_PER_KWH env) (toPropertyKey env k) of
             None \<Rightarrow> globalIntensity env
           | Some v \<Rightarrow>
               if truthy_region k \<and> truthy_entry (Some v) then v else globalIntensity env))"

definition bound :: "pick \<Rightarrow> NumericRange \<Rightarrow> number" where
  \<comment> \<open>the end of a range that the all-mins input (\<open>PickMin\<close>) or the all-maxes input
      (\<open>PickMax\<close>) takes\<close>
  "bound pk r = (case pk of PickMin \<Rightarrow> range_min r | PickMax \<Rightarrow> range_max r)"

definition ranged :: "pick \<Rightarrow> NumericRange option \<Rightarrow> number option \<Rightarrow> number option" where
  \<comment> \<open>a field that may carry a range: the bound of the range when one is given, else the
      value \<open>v\<close> of the input\<close>
  "ranged pk rng v = (case rng of Some r \<Rightarrow> Some (bound pk r) | None \<Rightarrow> v)"

definition allBounds :: "pick \<Rightarrow> UncertaintyRanges \<Rightarrow> ImpactInputs \<Rightarrow> ImpactInputs \<Rightarrow> bool" where
  \<comment> \<open>\<open>b\<close> is the all-mins (all-maxes) input of \<open>inp\<close>: each of the seven fields that may
      carry a range is at its bound, every other field is as in \<open>inp\<close>\<close>
  "allBounds pk ranges inp b =
     (Some (ImpactInputs.gpuPowerW b)
        = ranged pk (UncertaintyRanges.gpuPowerW ranges) (Some (ImpactInputs.gpuPowerW inp))
      \<and> Option.bind (ImpactInputs.efficiency b) EfficiencyOptions.pue
        = ranged pk (UncertaintyRanges.pue ranges)
            (Option.bind (ImpactInputs.efficiency inp) EfficiencyOptions.pue)
      \<and> Option.bind (ImpactInputs.efficiency b) EfficiencyOptions.overheadFactor
        = ranged pk (UncertaintyRanges.overheadFactor ranges)
            (Option.bind (ImpactInputs.efficiency inp) EfficiencyOptions.overheadFactor)
      \<and> Option.bind (ImpactInputs.efficiency b) EfficiencyOptions.efficiencyFactor
        = ranged pk (UncertaintyRanges.efficiencyFactor ranges)
            (Option.bind (ImpactInputs.efficiency inp) EfficiencyOptions.efficiencyFactor)
      \<and> Option.bind (throughput b) ThroughputConfig.tokensPerSecond
        = ranged pk (UncertaintyRanges.tokensPerSecond ranges)
            (Option.bind (throughput inp) ThroughputConfig.tokensPerSecond)
      \<and> Option.bind (throughput b) ThroughputConfig.audioSecondsPerSecond
        = ranged pk (UncertaintyRanges.audioSecondsPerSecond ranges)
            (Option.bind (throughput inp) ThroughputConfig.audioSecondsPerSecond)
      \<and> Option.bind (throughput b) ThroughputConfig.pixelsPerSecond
        = ranged pk (UncertaintyRanges.pixelsPerSecond ranges)
            (Option.bind (throughput inp) ThroughputConfig.pixelsPerSecond)
      \<and> Option.bind (ImpactInputs.efficiency b) batchSize
        = Option.bind (ImpactInputs.efficiency inp) batchSize
      \<and> Option.bind (ImpactInputs.efficiency b) precision
        = Option.bind (ImpactInputs.efficiency inp) precision
      \<and> Option.bind (ImpactInputs.efficiency b) quantization
        = Option.bind (ImpactInputs.efficiency inp) quantization
      \<and> cpuPowerW b = cpuPowerW inp \<and> networkPowerW b = networkPowerW inp
      \<and> modelParamsB b = modelParamsB inp
      \<and> ImpactInputs.region b = ImpactInputs.region inp
      \<and> ImpactInputs.gridCarbonIntensityGPerKwh b = ImpactInputs.gridCarbonIntensityGPerKwh inp
      \<and> ImpactInputs.timestamp b = ImpactInputs.timestamp inp
      \<and> ImpactInputs.gridIntensityResolver b = ImpactInputs.gridIntensityResolver inp
      \<and> ImpactInputs.processingTimeSeconds b = ImpactInputs.processingTimeSeconds inp
      \<and> usage b = usage inp
      \<and> ImpactInputs.energy b = ImpactInputs.energy inp)"

definition ukResolver :: GridIntensityResolver where
  \<comment> \<open>a resolver that knows \<open>uk\<close> only\<close>
  "ukResolver r t = (if r = Some (Declared (js ''uk'')) then JSNumber (Fin 100) else JSOther)"

definition infiniteResolver :: GridIntensityResolver where
  "infiniteResolver r t = JSNumber PInf"

definition zeroResolver :: GridIntensityResolver where
  "zeroResolver r t = JSNumber (Fin 0)"

definition efficiencyFactorOnly :: "number \<Rightarrow> number \<Rightarrow> UncertaintyRanges" where
  \<comment> \<open>\<^verbatim>\<open>{ efficiencyFactor: { min: lo, max: hi } }\<close>\<close>
  "efficiencyFactorOnly lo hi =
     noRanges\<lparr>UncertaintyRanges.efficiencyFactor := Some \<lparr>range_min = lo, range_max = hi\<rparr>\<rparr>"

definition withEfficiencyFactor :: "ImpactInputs \<Rightarrow> number \<Rightarrow> ImpactInputs" where
  \<comment> \<open>the input with \<open>efficiency.efficiencyFactor\<close> set to \<open>f\<close>, the other fields as they
      are\<close>
  "withEfficiencyFactor inp f =
     inp\<lparr>ImpactInputs.efficiency :=
           Some ((case ImpactInputs.efficiency inp of
                    Some e \<Rightarrow> e | None \<Rightarrow> emptyEfficiency)
                 \<lparr>EfficiencyOptions.efficiencyFactor := Some f\<rparr>)\<rparr>"

definition timeSource :: "ImpactInputs \<Rightarrow> number \<Rightarrow> bool" where
  \<comment> \<open>\<open>t\<close> is the time before the efficiency adjustment on the path without an override\<close>
  "timeSource inp t =
     (case ImpactInputs.processingTimeSeconds inp of
        Some s \<Rightarrow> positive s \<and> t = s
      | None \<Rightarrow> (\<exists>u. usage inp = Some u
                   \<and> deriveProcessingTimeSeconds u (throughput inp) = Inr t))"

definition resultWith :: "number \<Rightarrow> number \<Rightarrow> ImpactResult" where
  \<comment> \<open>a result with the given energy and carbon, at one gram for each kWh\<close>
  "resultWith kwh grams =
     \<lparr>category = None, ImpactResult.energyKwh = kwh, ImpactResult.co2Grams = grams,
      ImpactResult.gridCarbonIntensityGPerKwh = Declared (Fin 1), effectivePowerW = Fin 100,
      ImpactResult.processingTimeSeconds = Fin 0, note_list = []\<rparr>"

fun exactSum :: "rat \<Rightarrow> number list \<Rightarrow> bool" where
  "exactSum acc [] = True"
| "exactSum acc (Fin x # vs) = (representable (acc + x) \<and> exactSum (acc + x) vs)"
| "exactSum acc (v # vs) = False"

fun finite_value :: "number \<Rightarrow> rat" where
  "finite_value (Fin x) = x"
| "finite_value v = 0"

definition aggregateStep :: "AggregateImpactResult \<Rightarrow> ImpactResult \<Rightarrow> AggregateImpactResult" where
  \<comment> \<open>the reducer of \<^verbatim>\<open>aggregateImpacts\<close>\<close>
  "aggregateStep acc result =
     \<lparr>count = count acc + 1,
      AggregateImpactResult.energyKwh =
        num_add (AggregateImpactResult.energyKwh acc) (ImpactResult.energyKwh result),
      AggregateImpactResult.co2Grams =
        num_add (AggregateImpactResult.co2Grams acc) (ImpactResult.co2Grams result)\<rparr>"

definition sampleResult :: ImpactResult where
  \<comment> \<open>what the estimator returns for \<open>sampleInput\<close> on \<open>sampleHost\<close>\<close>
  "sampleResult =
     \<lparr>category = Some ChatCompletions,
      ImpactResult.energyKwh = Fin (5380300354831953 / 4611686018427387904),
      ImpactResult.co2Grams = Fin (8835882324915819 / 36028797018963968),
      ImpactResult.gridCarbonIntensityGPerKwh = Declared (Fin (7396106856793375 / 35184372088832)),
      effectivePowerW = Fin 350, ImpactResult.processingTimeSeconds = Fin 12,
      note_list =
        [BasePowerNote (Fin 350), OverheadFactorNote (Fin 1), PueNote (Fin 1),
         GridIntensityNote (Declared (Fin (7396106856793375 / 35184372088832)))]\<rparr>"

definition nanOverheadInput :: ImpactInputs where
  \<comment> \<open>\<open>sampleInput\<close> with \<^verbatim>\<open>efficiency: { overheadFactor: NaN }\<close>\<close>
  "nanOverheadInput = withOverhead sampleInput emptyEfficiency NaN"

definition nanOverheadResult :: ImpactResult where
  "nanOverheadResult =
     \<lparr>category = Some ChatCompletions, ImpactResult.energyKwh = NaN,
      ImpactResult.co2Grams = NaN,
      ImpactResult.gridCarbonIntensityGPerKwh = Declared (Fin (7396106856793375 / 35184372088832)),
      effectivePowerW = NaN, ImpactResult.processingTimeSeconds = Fin 12,
      note_list =
        [BasePowerNote (Fin 350), OverheadFactorNote NaN, PueNote (Fin 1),
         GridIntensityNote (Declared (Fin (7396106856793375 / 35184372088832)))]\<rparr>"

definition constructorInput :: ImpactInputs where
  \<comment> \<open>\<open>sampleInput\<close> with \<^verbatim>\<open>region: "constructor"\<close>, a key that the tables inherit\<close>
  "constructorInput = sampleInput\<lparr>ImpactInputs.region := Some (js ''constructor'')\<rparr>"

definition constructorResult :: ImpactResult where
  "constructorResult =
     \<lparr>category = Some ChatCompletions,
      ImpactResult.energyKwh = Fin (5380300354831953 / 4611686018427387904),
      ImpactResult.co2Grams = NaN,
      ImpactResult.gridCarbonIntensityGPerKwh = PrototypeMember (js ''constructor''),
      effectivePowerW = Fin 350, ImpactResult.processingTimeSeconds = Fin 12,
      note_list =
        [BasePowerNote (Fin 350), OverheadFactorNote (Fin 1), PueNote (Fin 1),
         GridIntensityNote (PrototypeMember (js ''constructor''))]\<rparr>"

definition efficiencyRangeResult :: ImpactRangeResult where
  \<comment> \<open>what the range evaluator returns for \<open>sampleInput\<close> with
      \<^verbatim>\<open>{ efficiencyFactor: { min: 1, max: 2 } }\<close>\<close>
  "efficiencyRangeResult =
     \<lparr>base = sampleResult,
      energyKwhMin = Fin (5380300354831953 / 9223372036854775808),
      energyKwhMax = Fin (5380300354831953 / 4611686018427387904),
      co2GramsMin = Fin (8835882324915819 / 72057594037927936),
      co2GramsMax = Fin (8835882324915819 / 36028797018963968)\<rparr>"

definition zeroCpuInput :: ImpactInputs where
  "zeroCpuInput = sampleInput\<lparr>cpuPowerW := Some (Fin 0)\<rparr>"

definition negativeCpuInput :: ImpactInputs where
  "negativeCpuInput = sampleInput\<lparr>cpuPowerW := Some (Fin (- 5))\<rparr>"

definition cornerInput :: ImpactInputs where
  \<comment> \<open>\<^verbatim>\<open>{ gpuPowerW: 2 ** 1023, cpuPowerW: 2 ** 1023,
      processingTimeSeconds: Number.MIN_VALUE, gridCarbonIntensityGPerKwh: 475 }\<close>\<close>
  "cornerInput =
     \<lparr>ImpactInputs.gpuPowerW = Fin (2 ^ 1023), cpuPowerW = Some (Fin (2 ^ 1023)),
      networkPowerW = None, modelParamsB = None, ImpactInputs.region = None,
      ImpactInputs.gridCarbonIntensityGPerKwh = Some (Fin 475),
      ImpactInputs.timestamp = None, ImpactInputs.gridIntensityResolver = None,
      ImpactInputs.processingTimeSeconds = Some (Fin (1 / 2 ^ 1074)),
      usage = None, throughput = None,
      ImpactInputs.energy = None, ImpactInputs.efficiency = None\<rparr>"

definition fifthResult :: ImpactResult where
  \<comment> \<open>a result of 0.2 kWh\<close>
  "fifthResult = resultWith (rnd (2 / 10)) (rnd (2 / 10))"

definition threeTenthsResult :: ImpactResult where
  \<comment> \<open>a result of 0.3 kWh\<close>
  "threeTenthsResult = resultWith (rnd (3 / 10)) (rnd (3 / 10))"

definition tenthResult :: ImpactResult where
  \<comment> \<open>a result of 0.1 kWh\<close>
  "tenthResult = resultWith (rnd (1 / 10)) (rnd (1 / 10))"

section \<open>Rounding\<close>

text \<open>
  What the proofs below need of the rounding: it is the identity on integers up to
  \<open>2 ^ 53\<close>, it keeps the sign, it is monotone, it overflows from \<open>2 ^ 1024\<close> on and
  it flushes to zero up to half the smallest subnormal.
\<close>

lemma rhe_of_int [simp]: "rhe (of_int n) = n"
  by (simp add: rhe_def)

lemma rhe_cases: "rhe y = \<lfloor>y\<rfloor> \<or> rhe y = \<lfloor>y\<rfloor> + 1"
  by (simp add: rhe_def Let_def)

lemma rhe_floor_le: "\<lfloor>y\<rfloor> \<le> rhe y"
  by (simp add: rhe_def Let_def)

lemma rhe_mono:
  assumes "x \<le> y"
  shows "rhe x \<le> rhe y"
proof (cases "\<lfloor>x\<rfloor> = \<lfloor>y\<rfloor>")
  case True
  have "x - of_int \<lfloor>x\<rfloor> \<le> y - of_int \<lfloor>x\<rfloor>"
    using assms by simp
  then show ?thesis
    using True by (auto simp: rhe_def Let_def)
next
  case False
  then have "\<lfloor>x\<rfloor> + 1 \<le> \<lfloor>y\<rfloor>"
    using floor_mono [OF assms] by linarith
  moreover have "rhe x \<le> \<lfloor>x\<rfloor> + 1"
    using rhe_cases [of x] by linarith
  ultimately show ?thesis
    using rhe_floor_le [of y] by linarith
qed

lemma rhe_nonneg: "0 \<le> x \<Longrightarrow> 0 \<le> rhe x"
  using rhe_mono [of 0 x] rhe_of_int [of 0] by simp

lemma rhe_ge_int: "of_int n \<le> x \<Longrightarrow> n \<le> rhe x"
  using rhe_mono [of "of_int n" x] by simp

lemma rhe_le_int: "x \<le> of_int n \<Longrightarrow> rhe x \<le> n"
  using rhe_mono [of x "of_int n"] by simp

lemma ilog2_bounds:
  assumes "0 < a"
  shows "2 powi (ilog2 a) \<le> a \<and> a < 2 powi (ilog2 a + 1)"
proof (cases "1 \<le> a")
  case True
  define n where "n = \<lfloor>a\<rfloor>"
  have n: "0 < n" using True by (simp add: n_def)
  have e: "ilog2 a = bitlen n - 1" using True by (simp add: ilog2_def n_def)
  have b0: "0 < bitlen n" using n by (simp add: bitlen_alt_def [of n] bitlen_nonneg add_nonneg_pos)
  from bitlen_bounds [OF n]
  have lo: "2 ^ nat (bitlen n - 1) \<le> n" and hi: "n < 2 ^ nat (bitlen n)" by simp_all
  have "(2::rat) powi (bitlen n - 1) = of_int (2 ^ nat (bitlen n - 1))"
    using b0 by (simp add: power_int_def)
  also have "\<dots> \<le> of_int n" using lo by (simp only: of_int_le_iff)
  also have "\<dots> \<le> a" by (simp add: n_def)
  finally have 1: "2 powi (ilog2 a) \<le> a" by (simp add: e)
  have "n + 1 \<le> 2 ^ nat (bitlen n)" using hi by simp
  then have "(of_int (n + 1) :: rat) \<le> of_int (2 ^ nat (bitlen n))"
    by (simp only: of_int_le_iff)
  moreover have "a < of_int (n + 1)" unfolding n_def by linarith
  moreover have "(2::rat) powi (bitlen n) = of_int (2 ^ nat (bitlen n))"
    using b0 by (simp add: power_int_def)
  ultimately have 2: "a < 2 powi (ilog2 a + 1)" by (simp add: e)
  from 1 2 show ?thesis by simp
next
  case False
  define c where "c = \<lceil>1 / a\<rceil>"
  define m where "m = bitlen (c - 1)"
  have a1: "a < 1" using False by simp
  have b1: "1 < 1 / a" using assms a1 by simp
  have c2: "2 \<le> c" using b1 unfolding c_def by (simp add: ceiling_le_iff le_ceiling_iff)
  have e: "ilog2 a = - m" using False by (simp add: ilog2_def m_def c_def)
  have c0: "0 < c - 1" using c2 by simp
  have m0: "0 < m" unfolding m_def using c0 by (simp add: bitlen_alt_def [of "c - 1"] bitlen_nonneg add_nonneg_pos)
  from bitlen_bounds [OF c0]
  have lo: "2 ^ nat (m - 1) \<le> c - 1" and hi: "c - 1 < 2 ^ nat m" by (simp_all add: m_def)
  have p1: "(2::rat) powi m = of_int (2 ^ nat m)" using m0 by (simp add: power_int_def)
  have p2: "(2::rat) powi (m - 1) = of_int (2 ^ nat (m - 1))" using m0 by (simp add: power_int_def)
  have "1 / a \<le> of_int c" unfolding c_def by simp
  also have "(of_int c :: rat) \<le> of_int (2 ^ nat m)" using hi by (simp only: of_int_le_iff)
  finally have "1 / a \<le> 2 powi m" by (simp add: p1)
  then have 1: "2 powi (- m) \<le> a"
    using assms by (simp add: power_int_minus field_simps)
  have "(of_int (2 ^ nat (m - 1)) :: rat) \<le> of_int (c - 1)" using lo by (simp only: of_int_le_iff)
  also have "of_int (c - 1) < 1 / a" unfolding c_def by (simp add: ceiling_correct) 
  finally have "2 powi (m - 1) < 1 / a" by (simp add: p2)
  then have 2: "a < 2 powi (- m + 1)"
    using assms by (simp add: power_int_minus [symmetric] field_simps power_int_diff power_int_add)
  from 1 2 show ?thesis by (simp add: e)
qed


lemma pow2_less_iff: "(2::rat) powi m < 2 powi n \<longleftrightarrow> m < n"
proof
  assume h: "(2::rat) powi m < 2 powi n"
  show "m < n"
  proof (rule ccontr)
    assume "\<not> m < n"
    then have "n \<le> m" by simp
    then have "(2::rat) powi n \<le> 2 powi m" by (rule power_int_increasing) simp
    with h show False by simp
  qed
next
  assume "m < n"
  then show "(2::rat) powi m < 2 powi n" by (rule power_int_strict_increasing) simp
qed

lemma pow2_le_iff: "(2::rat) powi m \<le> 2 powi n \<longleftrightarrow> m \<le> n"
  using pow2_less_iff [of n m] by (simp add: not_less [symmetric])

lemma pow2_split: "(2::rat) powi (k + e) = 2 powi k * 2 powi e"
  by (rule power_int_add) simp

lemma ilog2_unique:
  assumes "0 < a" and "2 powi e \<le> a" and "a < 2 powi (e + 1)"
  shows "ilog2 a = e"
proof -
  from ilog2_bounds [OF assms(1)]
  have lo: "2 powi (ilog2 a) \<le> a" and hi: "a < 2 powi (ilog2 a + 1)" by simp_all
  have "(2::rat) powi e < 2 powi (ilog2 a + 1)" using assms(2) hi by linarith
  then have 1: "e < ilog2 a + 1" by (simp only: pow2_less_iff)
  have "(2::rat) powi (ilog2 a) < 2 powi (e + 1)" using lo assms(3) by linarith
  then have 2: "ilog2 a < e + 1" by (simp only: pow2_less_iff)
  from 1 2 show ?thesis by linarith
qed

lemma ilog2_mono:
  assumes "0 < a" and "a \<le> b"
  shows "ilog2 a \<le> ilog2 b"
proof -
  have b: "0 < b" using assms by linarith
  from ilog2_bounds [OF assms(1)] ilog2_bounds [OF b]
  have "(2::rat) powi (ilog2 a) < 2 powi (ilog2 b + 1)" using assms(2) by linarith
  then have "ilog2 a < ilog2 b + 1" by (simp only: pow2_less_iff)
  then show ?thesis by linarith
qed

lemma quantum_pos [simp]: "0 < quantum a"
  by (simp add: quantum_def)

lemma round_magnitude_nonneg:
  assumes "0 \<le> a"
  shows "0 \<le> round_magnitude a"
proof -
  have "0 \<le> a / quantum a" using assms by (simp add: less_imp_le)
  then have "0 \<le> rhe (a / quantum a)" by (rule rhe_nonneg)
  then show ?thesis by (simp add: round_magnitude_def less_imp_le)
qed

lemma round_magnitude_upper:
  assumes "0 < a"
  shows "round_magnitude a \<le> 2 powi (max (ilog2 a) (- 1022) + 1)"
proof -
  define E where "E = max (ilog2 a) (- 1022)"
  define q where "q = quantum a"
  have q: "q = 2 powi (E - 52)" by (simp add: q_def quantum_def E_def)
  have q0: "0 < q" by (simp add: q_def)
  have "a < 2 powi (ilog2 a + 1)" using ilog2_bounds [OF assms] by simp
  also have "\<dots> \<le> 2 powi (E + 1)" by (simp only: pow2_le_iff) (simp add: E_def)
  finally have aE: "a < 2 powi (E + 1)" .
  have "E + 1 = 53 + (E - 52)" by simp
  then have split: "(2::rat) powi (E + 1) = 2 powi 53 * q"
    by (simp only: pow2_split q)
  have "a / q \<le> 2 powi 53"
    using aE q0 by (simp add: split field_simps)
  then have "a / q \<le> of_int (2 ^ 53)" by simp
  then have "rhe (a / q) \<le> 2 ^ 53" by (rule rhe_le_int)
  then have "(of_int (rhe (a / q)) :: rat) \<le> of_int (2 ^ 53)"
    by (simp only: of_int_le_iff)
  then have "of_int (rhe (a / q)) \<le> (2::rat) powi 53" by simp
  then have "of_int (rhe (a / q)) * q \<le> 2 powi 53 * q"
    using q0 by (simp only: mult_le_cancel_right_pos)
  then have "of_int (rhe (a / q)) * q \<le> 2 powi (E + 1)"
    by (simp only: split)
  then show ?thesis
    by (simp only: round_magnitude_def q_def [symmetric] E_def [symmetric])
qed

lemma round_magnitude_lower:
  assumes "0 < a" and "- 1022 \<le> ilog2 a"
  shows "2 powi (ilog2 a) \<le> round_magnitude a"
proof -
  define E where "E = ilog2 a"
  define q where "q = quantum a"
  have q: "q = 2 powi (E - 52)" using assms(2) by (simp add: q_def quantum_def E_def max_def)
  have q0: "0 < q" by (simp add: q_def)
  have "E = 52 + (E - 52)" by simp
  then have split: "(2::rat) powi E = 2 powi 52 * q"
    using pow2_split [of 52 "E - 52"] by (simp only: q)
  have "2 powi E \<le> a" using ilog2_bounds [OF assms(1)] by (simp add: E_def)
  then have "2 powi 52 \<le> a / q"
    using q0 by (simp add: split field_simps)
  then have "of_int (2 ^ 52) \<le> a / q" by simp
  then have "2 ^ 52 \<le> rhe (a / q)" by (rule rhe_ge_int)
  then have "(of_int (2 ^ 52) :: rat) \<le> of_int (rhe (a / q))"
    by (simp only: of_int_le_iff)
  then have "(2::rat) powi 52 \<le> of_int (rhe (a / q))" by simp
  then have "2 powi 52 * q \<le> of_int (rhe (a / q)) * q"
    using q0 by (simp only: mult_le_cancel_right_pos)
  then have "2 powi E \<le> of_int (rhe (a / q)) * q"
    by (simp only: split)
  then show ?thesis
    by (simp only: round_magnitude_def q_def [symmetric] E_def [symmetric])
qed

lemma round_magnitude_mono:
  assumes "0 < a" and "a \<le> b"
  shows "round_magnitude a \<le> round_magnitude b"
proof -
  have b: "0 < b" using assms by linarith
  define Ea where "Ea = max (ilog2 a) (- 1022)"
  define Eb where "Eb = max (ilog2 b) (- 1022)"
  have le: "Ea \<le> Eb" using ilog2_mono [OF assms] by (simp add: Ea_def Eb_def max_def)
  show ?thesis
  proof (cases "Ea = Eb")
    case True
    then have q: "quantum a = quantum b" by (simp add: quantum_def Ea_def Eb_def)
    have q0: "0 < quantum b" by simp
    have "a / quantum b \<le> b / quantum b"
      by (rule divide_right_mono [OF assms(2) less_imp_le [OF q0]])
    then have "rhe (a / quantum b) \<le> rhe (b / quantum b)" by (rule rhe_mono)
    then have "(of_int (rhe (a / quantum b)) :: rat) \<le> of_int (rhe (b / quantum b))"
      by (simp only: of_int_le_iff)
    then have "of_int (rhe (a / quantum b)) * quantum b \<le> of_int (rhe (b / quantum b)) * quantum b"
      using q0 by (simp only: mult_le_cancel_right_pos)
    then show ?thesis by (simp only: round_magnitude_def q)
  next
    case False
    then have lt: "Ea + 1 \<le> Eb" using le by linarith
    then have nb: "- 1022 \<le> ilog2 b" and eb: "Eb = ilog2 b"
      by (auto simp: Ea_def Eb_def max_def split: if_splits)
    have "round_magnitude a \<le> 2 powi (Ea + 1)"
      using round_magnitude_upper [OF assms(1)] by (simp add: Ea_def)
    also have "\<dots> \<le> 2 powi Eb" using lt by (simp only: pow2_le_iff)
    also have "\<dots> \<le> round_magnitude b"
      using round_magnitude_lower [OF b nb] by (simp add: eb)
    finally show ?thesis .
  qed
qed


lemma rnd_0 [simp]: "rnd 0 = Fin 0"
  by (simp add: rnd_def)

lemma rnd_pos:
  assumes "0 < x"
  shows "rnd x = (if 2 ^ 1024 \<le> round_magnitude x then PInf else Fin (round_magnitude x))"
  using assms by (simp add: rnd_def Let_def)

lemma rnd_nonneg:
  assumes "0 \<le> x"
  shows "rnd x = PInf \<or> (\<exists>q. rnd x = Fin q \<and> 0 \<le> q)"
proof (cases "x = 0")
  case True
  then show ?thesis by (simp add: rnd_def)
next
  case False
  then have "0 < x" using assms by simp
  then show ?thesis
    using round_magnitude_nonneg [OF assms] by (simp add: rnd_pos)
qed

lemma rnd_mono_nonneg:
  assumes "0 \<le> x" and "x \<le> y"
  shows "num_le (rnd x) (rnd y)"
proof (cases "x = 0")
  case True
  have "0 \<le> y" using assms by linarith
  from rnd_nonneg [OF this] show ?thesis
    unfolding True by (auto simp: num_le_def)
next
  case False
  then have x: "0 < x" using assms by simp
  then have y: "0 < y" using assms by linarith
  from round_magnitude_mono [OF x assms(2)]
  show ?thesis
    using x y by (auto simp: rnd_pos num_le_def)
qed

lemma rnd_overflow:
  assumes "2 ^ 1024 \<le> x"
  shows "rnd x = PInf"
proof -
  have x: "0 < x"
  proof -
    have "(0::rat) < 2 ^ 1024" by simp
    with assms show ?thesis by linarith
  qed
  have "(2::rat) powi 1024 \<le> x" using assms by simp
  also have "x < 2 powi (ilog2 x + 1)" using ilog2_bounds [OF x] by simp
  finally have "(1024::int) < ilog2 x + 1" by (simp only: pow2_less_iff)
  then have e: "1024 \<le> ilog2 x" by linarith
  then have "(2::rat) powi 1024 \<le> 2 powi (ilog2 x)" by (simp only: pow2_le_iff)
  also have "\<dots> \<le> round_magnitude x"
    using e by (intro round_magnitude_lower [OF x]) linarith
  finally have "(2::rat) ^ 1024 \<le> round_magnitude x" by simp
  then show ?thesis using x by (simp add: rnd_pos)
qed

lemma rnd_underflow:
  assumes "0 \<le> x" and "x \<le> 1 / 2 ^ 1075"
  shows "rnd x = Fin 0"
proof (cases "x = 0")
  case True
  then show ?thesis by (simp add: rnd_def)
next
  case False
  then have x: "0 < x" using assms by simp
  have "x \<le> 2 powi (- 1075)" using assms(2) by (simp add: power_int_minus_divide)
  also have "(2::rat) powi (- 1075) < 2 powi (- 1074)" by (simp only: pow2_less_iff)
  finally have "x < 2 powi (- 1074)" .
  with ilog2_bounds [OF x] have "(2::rat) powi (ilog2 x) < 2 powi (- 1074)" by linarith
  then have "ilog2 x < - 1074" by (simp only: pow2_less_iff)
  then have q: "quantum x = 2 powi (- 1074)" by (simp add: quantum_def max_def)
  have "(2::rat) powi (- 1075 + 1) = 2 powi (- 1075) * 2 powi 1"
    by (rule power_int_add) simp
  then have half: "(2::rat) powi (- 1075) = 2 powi (- 1074) / 2" by simp
  have "x / quantum x \<le> 1 / 2"
    using \<open>x \<le> 2 powi (- 1075)\<close> unfolding q half by (simp add: field_simps)
  then have "rhe (x / quantum x) \<le> rhe (1 / 2)" by (rule rhe_mono)
  moreover have "rhe (1 / 2) = 0"
  proof -
    have "\<lfloor>1 / 2 :: rat\<rfloor> = 0" by (rule floor_unique) simp_all
    then show ?thesis by (simp add: rhe_def)
  qed
  moreover have "0 \<le> rhe (x / quantum x)"
    using x by (intro rhe_nonneg) (simp add: less_imp_le)
  ultimately have "rhe (x / quantum x) = 0" by linarith
  then have "round_magnitude x = 0" by (simp add: round_magnitude_def)
  then show ?thesis using x by (simp add: rnd_pos)
qed

lemma rnd_neg: "rnd (- x) = (case rnd x of Fin q \<Rightarrow> Fin (- q) | PInf \<Rightarrow> NInf | NInf \<Rightarrow> PInf | NaN \<Rightarrow> NaN)"
  by (cases "x = 0"; cases "x < 0") (auto simp: rnd_def Let_def sgn_if)

lemma rnd_int_nonneg:
  assumes "0 \<le> n" and "n \<le> 2 ^ 53"
  shows "rnd (of_int n) = Fin (of_int n)"
proof (cases "n = 0")
  case True
  then show ?thesis by (simp add: rnd_def)
next
  case False
  then have n: "0 < n" using assms by simp
  define a :: rat where "a = of_int n"
  have a: "0 < a" using n by (simp add: a_def)
  have a1: "1 \<le> a" using n by (simp add: a_def) 
  have "(2::rat) powi 0 \<le> a" using a1 by simp
  also have "a < 2 powi (ilog2 a + 1)" using ilog2_bounds [OF a] by simp
  finally have "0 < ilog2 a + 1" by (simp only: pow2_less_iff)
  then have e0: "0 \<le> ilog2 a" by simp
  have "(2::rat) powi (ilog2 a) \<le> a" using ilog2_bounds [OF a] by simp
  also have "a \<le> 2 powi 53" using assms(2) unfolding a_def
    by (metis of_int_le_iff of_int_numeral of_int_power power_int_numeral)
  finally have e53: "ilog2 a \<le> 53" by (simp only: pow2_le_iff)
  define k where "k = nat (53 - ilog2 a)"
  define j where "j = nat (ilog2 a)"
  have q: "quantum a = 2 powi (ilog2 a - 52)" using e0 by (simp add: quantum_def max_def)
  have "\<exists>z. a / quantum a = of_int z"
  proof (cases "ilog2 a \<le> 52")
    case True
    have "quantum a * 2 powi (52 - ilog2 a) = 2 powi (ilog2 a - 52 + (52 - ilog2 a))"
      by (simp only: q pow2_split)
    then have "quantum a * 2 powi (52 - ilog2 a) = 1" by simp
    moreover have "(2::rat) powi (52 - ilog2 a) = 2 ^ nat (52 - ilog2 a)"
      using True by (simp add: power_int_def)
    ultimately have "quantum a * 2 ^ nat (52 - ilog2 a) = 1" by simp
    then have "a / quantum a = a * 2 ^ nat (52 - ilog2 a)"
      by (metis divide_divide_eq_right divide_self_if mult.commute mult_cancel_right1 nonzero_mult_div_cancel_left quantum_pos less_irrefl div_by_1 mult.right_neutral nonzero_divide_eq_eq)
    then have "a / quantum a = of_int (n * 2 ^ nat (52 - ilog2 a))"
      by (simp add: a_def)
    then show ?thesis by blast
  next
    case False
    then have e: "ilog2 a = 53" using e53 by linarith
    have "(2::rat) powi 53 \<le> a" using ilog2_bounds [OF a] by (simp add: e)
    then have "(2::rat) ^ 53 \<le> of_int n" by (simp add: a_def)
    then have "(of_int (2 ^ 53) :: rat) \<le> of_int n" by simp
    then have "2 ^ 53 \<le> n" by (simp only: of_int_le_iff)
    then have "n = 2 ^ 53" using assms(2) by linarith
    then have a53: "a = 2 ^ 53" by (simp add: a_def)
    have "quantum a = 2" unfolding q e by simp
    then have "a / quantum a = of_int (2 ^ 52)" unfolding a53 by simp
    then show ?thesis by blast
  qed
  then obtain z where z: "a / quantum a = of_int z" by blast
  have "quantum a \<noteq> 0" by (simp add: quantum_def)
  then have "a / quantum a * quantum a = a" by simp
  then have "round_magnitude a = a"
    unfolding round_magnitude_def z rhe_of_int .
  moreover have "a < 2 ^ 1024"
  proof -
    have "a \<le> 2 ^ 53" using \<open>a \<le> 2 powi 53\<close> by simp
    also have "(2::rat) ^ 53 < 2 ^ 1024" by simp
    finally show ?thesis .
  qed
  ultimately show ?thesis using a by (simp add: rnd_pos a_def)
qed

lemma rnd_int:
  assumes "\<bar>n\<bar> \<le> 2 ^ 53"
  shows "rnd (of_int n) = Fin (of_int n)"
proof (cases "0 \<le> n")
  case True
  then show ?thesis using assms by (intro rnd_int_nonneg) simp_all
next
  case False
  then have "rnd (of_int (- n)) = Fin (of_int (- n))"
    using assms by (intro rnd_int_nonneg) simp_all
  then show ?thesis using rnd_neg [of "of_int (- n)"] by (simp split: number.splits)
qed

lemma rnd_numeral [simp]:
  "numeral k \<le> (2::int) ^ 53 \<Longrightarrow> rnd (numeral k) = Fin (numeral k)"
  using rnd_int_nonneg [of "numeral k"] by simp

lemma rnd_1 [simp]: "rnd 1 = Fin 1"
  using rnd_int_nonneg [of 1] by simp

lemma rhe_1 [simp]: "rhe 1 = 1"
  using rhe_of_int [of 1] by simp

lemma rnd_min_subnormal: "rnd (1 / 2 ^ 1074) = Fin (1 / 2 ^ 1074)"
proof -
  define a :: rat where "a = 2 powi (- 1074)"
  have a: "0 < a" by (simp add: a_def)
  have "ilog2 a = - 1074"
  proof (rule ilog2_unique [OF a])
    show "2 powi (- 1074) \<le> a" by (simp add: a_def)
    show "a < 2 powi (- 1074 + 1)" unfolding a_def by (simp only: pow2_less_iff)
  qed
  then have q: "quantum a = a" by (simp add: quantum_def a_def)
  have "round_magnitude a = a" by (simp add: round_magnitude_def q a)
  moreover have "a < 2 ^ 1024"
  proof -
    have "a < 2 powi 1024" unfolding a_def by (simp only: pow2_less_iff)
    then show ?thesis by simp
  qed
  ultimately have "rnd a = Fin a" using a by (simp add: rnd_pos)
  then show ?thesis by (simp add: a_def power_int_minus_divide)
qed

lemma rnd_code [code]:
  "rnd x = (if x = 0 then Fin 0
            else let m = round_magnitude \<bar>x\<bar>
                 in if 179769313486231590772930519078902473361797697894230657273430081157732675805500963132708477322407536021120113879871393357658789768814416622492847430639474124377767893424865485276302219601246094119453082952085005768838150682342462881473913110540827237163350510684586298239947245938479716304835356329624224137216 \<le> m
                    then (if x < 0 then NInf else PInf)
                    else Fin (sgn x * m))"
  by (simp add: rnd_def)

section \<open>Basic facts\<close>

lemma and_then_Inl [simp]: "and_then (Inl e) k = Inl e"
  by (simp add: and_then_def)

lemma and_then_Inr [simp]: "and_then (Inr v) k = k v"
  by (simp add: and_then_def)

lemma and_then_eq_Inr:
  "and_then r k = Inr y \<longleftrightarrow> (\<exists>v. r = Inr v \<and> k v = Inr y)"
  by (cases r) simp_all

lemma positive_Fin: "positive v \<longleftrightarrow> (\<exists>q. v = Fin q \<and> 0 < q)"
  by (cases v) (auto simp: positive_def num_gt_def)

lemma requirePositive_Inr: "requirePositive name v = Inr u \<longleftrightarrow> positive v"
  by (cases v) (auto simp: requirePositive_def positive_def num_gt_def num_le_def)

lemma requirePositive_Inl:
  "requirePositive name v = Inl e \<longleftrightarrow> \<not> positive v \<and> e = MustBePositive name"
  by (cases v) (auto simp: requirePositive_def positive_def num_gt_def num_le_def)

lemma estimateImpactRange_alt:
  "estimateImpactRange env inp ranges =
     and_then (validateRanges ranges) (\<lambda>_.
     and_then (estimateImpact env inp) (\<lambda>b.
     if hasEnergyOverride inp then
       Inr \<lparr>base = b,
            energyKwhMin = ImpactResult.energyKwh b,
            energyKwhMax = ImpactResult.energyKwh b,
            co2GramsMin = ImpactResult.co2Grams b,
            co2GramsMax = ImpactResult.co2Grams b\<rparr>
     else
       and_then (estimateImpact env (buildInputWithRanges inp ranges PickMin)) (\<lambda>low.
       and_then (estimateImpact env (buildInputWithRanges inp ranges PickMax)) (\<lambda>high.
       Inr \<lparr>base = b,
            energyKwhMin = Math_min (ImpactResult.energyKwh low) (ImpactResult.energyKwh high),
            energyKwhMax = Math_max (ImpactResult.energyKwh low) (ImpactResult.energyKwh high),
            co2GramsMin = Math_min (ImpactResult.co2Grams low) (ImpactResult.co2Grams high),
            co2GramsMax = Math_max (ImpactResult.co2Grams low) (ImpactResult.co2Grams high)\<rparr>
       ))))"
  unfolding estimateImpactRange_def validateRanges_def and_then_def
  by (simp split: sum.splits)

lemma tenth: "rnd (1 / 10) = Fin (3602879701896397 / 36028797018963968)"
  by code_simp

lemma hundredth: "rnd (1 / 100) = Fin (5764607523034235 / 576460752303423488)"
  by code_simp

lemma clamp_overhead_20: "clamp (rnd (1 / 10)) (Fin 20) (Fin 10) = clamp (rnd (1 / 10)) (Fin 10) (Fin 10)"
  by (simp add: clamp_def Math_min_def Math_max_def tenth)

lemma clamp_overhead_hundredth:
  "clamp (rnd (1 / 10)) (rnd (1 / 100)) (Fin 10) = clamp (rnd (1 / 10)) (rnd (1 / 10)) (Fin 10)"
  by (simp add: clamp_def Math_min_def Math_max_def tenth hundredth)

lemma clamp_range:
  assumes "v \<noteq> NaN" and "num_le (Fin lo) (Fin hi)"
  shows "num_le (Fin lo) (clamp (Fin lo) v (Fin hi)) \<and> num_le (clamp (Fin lo) v (Fin hi)) (Fin hi)"
  using assms by (cases v) (auto simp: clamp_def Math_min_def Math_max_def num_le_def)

lemma requirePositive_alt:
  "requirePositive name v = (if positive v then Inr () else Inl (MustBePositive name))"
  by (cases v) (auto simp: requirePositive_def positive_def num_gt_def num_le_def)

lemma computeEffectivePowerW_cases:
  "computeEffectivePowerW inp =
     (let cpu = (case ImpactInputs.cpuPowerW inp of None \<Rightarrow> Fin 0 | Some c \<Rightarrow> c);
          net = (case ImpactInputs.networkPowerW inp of None \<Rightarrow> Fin 0 | Some n \<Rightarrow> n)
      in if \<not> positive (ImpactInputs.gpuPowerW inp) then Inl (MustBePositive ''gpuPowerW'')
         else if truthy cpu \<and> \<not> positive cpu then Inl (MustBePositive ''cpuPowerW'')
         else if truthy net \<and> \<not> positive net then Inl (MustBePositive ''networkPowerW'')
         else Inr (num_mul
                     (num_mul (basePower inp)
                        (clamp (rnd (1 / 10))
                           (case Option.bind (ImpactInputs.efficiency inp)
                                   EfficiencyOptions.overheadFactor of
                              None \<Rightarrow> DEFAULT_OVERHEAD | Some v \<Rightarrow> v)
                           (Fin 10)))
                     (clamp (Fin 1)
                        (case Option.bind (ImpactInputs.efficiency inp) EfficiencyOptions.pue of
                           None \<Rightarrow> DEFAULT_PUE | Some v \<Rightarrow> v)
                        (Fin 3)),
                   [BasePowerNote (basePower inp),
                    OverheadFactorNote
                      (clamp (rnd (1 / 10))
                         (case Option.bind (ImpactInputs.efficiency inp)
                                 EfficiencyOptions.overheadFactor of
                            None \<Rightarrow> DEFAULT_OVERHEAD | Some v \<Rightarrow> v)
                         (Fin 10)),
                    PueNote
                      (clamp (Fin 1)
                         (case Option.bind (ImpactInputs.efficiency inp) EfficiencyOptions.pue of
                            None \<Rightarrow> DEFAULT_PUE | Some v \<Rightarrow> v)
                         (Fin 3))]))"
  by (simp add: computeEffectivePowerW_def requirePositive_alt Let_def basePower_def)

lemma computeEffectivePowerW_Inr:
  assumes "computeEffectivePowerW inp = Inr (p, ns)"
  shows "p = num_mul
             (num_mul (basePower inp)
                (clamp (rnd (1 / 10))
                   (case Option.bind (ImpactInputs.efficiency inp) EfficiencyOptions.overheadFactor of
                      None \<Rightarrow> DEFAULT_OVERHEAD | Some v \<Rightarrow> v)
                   (Fin 10)))
             (clamp (Fin 1)
                (case Option.bind (ImpactInputs.efficiency inp) EfficiencyOptions.pue of
                   None \<Rightarrow> DEFAULT_PUE | Some v \<Rightarrow> v)
                (Fin 3))"
  using assms
  by (simp add: computeEffectivePowerW_cases Let_def split: if_splits)

lemma computeEffectivePowerW_overhead:
  assumes "clamp (rnd (1 / 10)) v (Fin 10) = clamp (rnd (1 / 10)) w (Fin 10)"
  shows "computeEffectivePowerW (withOverhead inp e v) = computeEffectivePowerW (withOverhead inp e w)"
  using assms by (simp add: computeEffectivePowerW_def withOverhead_def Let_def)

lemma deriveProcessingTimeSeconds_tokens:
  assumes "tokenUsage u i out"
  shows "deriveProcessingTimeSeconds u tp =
           (if \<not> positive i then Inl (MustBePositive ''inputTokens'')
            else if \<not> positive out then Inl (MustBePositive ''outputTokens'')
            else if \<not> positive (or_NaN (Option.bind tp ThroughputConfig.tokensPerSecond))
            then Inl (MustBePositive ''throughput.tokensPerSecond'')
            else Inr (num_div (num_add i out)
                        (or_NaN (Option.bind tp ThroughputConfig.tokensPerSecond))))"
  using assms
  by (auto simp: tokenUsage_def deriveProcessingTimeSeconds_def requirePositive_alt Let_def)

lemma applyEfficiencyToTime_cases:
  "applyEfficiencyToTime t eff =
     (case Option.bind eff EfficiencyOptions.efficiencyFactor of
        None \<Rightarrow> Inr t
      | Some f \<Rightarrow>
          if \<not> truthy f then Inr t
          else if positive f then Inr (num_div t f)
          else Inl (MustBePositive ''efficiency.efficiencyFactor''))"
  by (simp add: applyEfficiencyToTime_def requirePositive_alt split: option.splits)

lemma applyBatchSize_cases:
  "applyBatchSize k eff =
     (case Option.bind eff EfficiencyOptions.batchSize of
        None \<Rightarrow> Inr k
      | Some b \<Rightarrow>
          if \<not> truthy b then Inr k
          else if positive b then Inr (num_div k b)
          else Inl (MustBePositive ''efficiency.batchSize''))"
  by (simp add: applyBatchSize_def requirePositive_alt split: option.splits)

lemma positive_truthy: "positive v \<Longrightarrow> truthy v"
  by (auto simp: positive_Fin truthy_def)

lemma positive_gt: "positive v \<Longrightarrow> num_gt v (Fin 0)"
  by (simp add: positive_def)

lemma estimateImpact_time_path:
  assumes "resolveEnergyKwh (ImpactInputs.energy inp) = None"
    and "estimateImpact env inp = Inr r"
  shows "\<exists>t. (case ImpactInputs.processingTimeSeconds inp of
                 Some s \<Rightarrow> positive s \<and> t = s
               | None \<Rightarrow> (\<exists>u. usage inp = Some u
                            \<and> deriveProcessingTimeSeconds u (throughput inp) = Inr t))
             \<and> applyEfficiencyToTime t (ImpactInputs.efficiency inp)
                 = Inr (ImpactResult.processingTimeSeconds r)"
  using assms
  by (auto simp: estimateImpact_def Let_def and_then_eq_Inr requirePositive_alt
        split: option.splits if_splits prod.splits)


lemma computeEffectivePowerW_energy [simp]:
  "computeEffectivePowerW (inp\<lparr>ImpactInputs.energy := en\<rparr>) = computeEffectivePowerW inp"
  by (simp add: computeEffectivePowerW_def)



lemma eu_value: "rnd (21021 / 100) = Fin (7396106856793375 / 35184372088832)"
  by code_simp

lemma notNegative_simps [simp]:
  "notNegative NaN" "notNegative PInf" "\<not> notNegative NInf"
  "notNegative (Fin q) \<longleftrightarrow> 0 \<le> q"
  by (auto simp: notNegative_def)

lemma notNegative_rnd: "0 \<le> x \<Longrightarrow> notNegative (rnd x)"
  using rnd_nonneg [of x] by auto

lemma positive_notNegative: "positive v \<Longrightarrow> notNegative v"
  by (auto simp: positive_Fin)

lemma gt_notNegative: "num_gt v (Fin 0) \<Longrightarrow> notNegative v"
  by (cases v) (auto simp: num_gt_def)

lemma notNegative_add:
  "notNegative a \<Longrightarrow> notNegative b \<Longrightarrow> notNegative (num_add a b)"
  by (cases a; cases b) (auto intro: notNegative_rnd)

lemma notNegative_mul:
  "notNegative a \<Longrightarrow> notNegative b \<Longrightarrow> notNegative (num_mul a b)"
  by (cases a; cases b) (auto intro: notNegative_rnd)

lemma notNegative_div:
  "notNegative a \<Longrightarrow> positive b \<Longrightarrow> notNegative (num_div a b)"
  by (cases a; cases b) (auto simp: positive_Fin intro: notNegative_rnd)

lemma notNegative_clamp:
  "notNegative lo \<Longrightarrow> notNegative (clamp lo v hi)"
  by (auto simp: clamp_def Math_max_def Math_min_def notNegative_def; cases lo; cases v; cases hi; auto)

lemma notNegative_tenth: "notNegative (rnd (1 / 10))"
  by (rule notNegative_rnd) simp

lemma notNegative_power:
  assumes "computeEffectivePowerW inp = Inr (p, ns)"
  shows "notNegative p"
proof -
  from assms have g: "positive (ImpactInputs.gpuPowerW inp)"
    and c: "\<not> (truthy (case ImpactInputs.cpuPowerW inp of None \<Rightarrow> Fin 0 | Some c \<Rightarrow> c)
             \<and> \<not> positive (case ImpactInputs.cpuPowerW inp of None \<Rightarrow> Fin 0 | Some c \<Rightarrow> c))"
    and n: "\<not> (truthy (case ImpactInputs.networkPowerW inp of None \<Rightarrow> Fin 0 | Some n \<Rightarrow> n)
             \<and> \<not> positive (case ImpactInputs.networkPowerW inp of None \<Rightarrow> Fin 0 | Some n \<Rightarrow> n))"
    by (simp_all add: computeEffectivePowerW_cases Let_def split: if_splits)
  note p = computeEffectivePowerW_Inr [OF assms]
  have falsy: "notNegative v" if "\<not> (truthy v \<and> \<not> positive v)" for v
    using that by (cases v) (auto simp: truthy_def positive_Fin)
  have "notNegative (basePower inp)"
    unfolding basePower_def
    by (intro notNegative_add positive_notNegative [OF g] falsy [OF c] falsy [OF n])
  then show ?thesis
    unfolding p
    by (intro notNegative_mul notNegative_clamp notNegative_tenth) simp_all
qed

lemma notNegative_derive:
  assumes "deriveProcessingTimeSeconds u tp = Inr t"
  shows "notNegative t"
  using assms
  by (cases u)
     (auto simp: deriveProcessingTimeSeconds_def requirePositive_alt Let_def
        intro!: notNegative_div notNegative_add notNegative_mul
        intro: positive_notNegative
        split: option.splits if_splits)

lemma notNegative_applyEfficiency:
  assumes "applyEfficiencyToTime t eff = Inr t'" and "notNegative t"
  shows "notNegative t'"
  using assms
  by (auto simp: applyEfficiencyToTime_cases intro: notNegative_div
        split: option.splits if_splits)

lemma notNegative_applyBatch:
  assumes "applyBatchSize k eff = Inr k'" and "notNegative k"
  shows "notNegative k'"
  using assms
  by (auto simp: applyBatchSize_cases intro: notNegative_div
        split: option.splits if_splits)

lemma notNegative_resolveEnergy:
  assumes "resolveEnergyKwh en = Some e"
  shows "notNegative e"
  using assms
  by (auto simp: resolveEnergyKwh_def toKwhFromJoules_def positive_Fin
        intro!: notNegative_div intro: gt_notNegative
        split: option.splits if_splits)

lemma js_simps [simp]: "js [] = []" "js (c # cs) = of_char c # js cs"
  by (simp_all add: js_def)

lemma DEFAULT_positive:
  assumes "positiveEntries env" and "DEFAULT_GRID_CARBON_G_PER_KWH env k = Some v"
  shows "num_gt v (Fin 0)"
  using assms
  by (auto simp: positiveEntries_def DEFAULT_GRID_CARBON_G_PER_KWH_def
        BASE_GRID_CARBON_G_PER_KWH_def map_add_def num_gt_def
        split: option.splits if_splits)

lemma DEFAULT_global: "\<exists>v. DEFAULT_GRID_CARBON_G_PER_KWH env (js ''global'') = Some v"
  by (auto simp: DEFAULT_GRID_CARBON_G_PER_KWH_def BASE_GRID_CARBON_G_PER_KWH_def map_add_def
        split: option.splits)

lemma property_positive:
  assumes "positiveEntries env"
    and "property (DEFAULT_GRID_CARBON_G_PER_KWH env) k = Some v"
  shows "notNegative (toNumber v)"
  using assms DEFAULT_positive [OF assms(1), of k]
  by (auto simp: property_def intro: gt_notNegative split: option.splits if_splits)

lemma property_global:
  "\<exists>v. property (DEFAULT_GRID_CARBON_G_PER_KWH env) (js ''global'') = Some (Declared v)
       \<and> DEFAULT_GRID_CARBON_G_PER_KWH env (js ''global'') = Some v"
  using DEFAULT_global [of env] by (auto simp: property_def)

lemma notNegative_grid:
  assumes "positiveEntries env"
  shows "notNegative (toNumber (fst (resolveGridIntensity env rg gci rs ts)))"
proof -
  obtain g where g: "property (DEFAULT_GRID_CARBON_G_PER_KWH env) (js ''global'') = Some g"
    using property_global by blast
  have gp: "notNegative (toNumber g)" using property_positive [OF assms g] .
  show ?thesis
    using gp g property_positive [OF assms]
    by (auto simp: resolveGridIntensity_def Let_def intro: gt_notNegative
          split: option.splits if_splits jsvalue.splits)
qed

lemma estimateImpact_Inr:
  assumes "estimateImpact env inp = Inr r"
  shows "\<exists>p ns kwh0.
           computeEffectivePowerW inp = Inr (p, ns)
         \<and> (case resolveEnergyKwh (ImpactInputs.energy inp) of
               Some e \<Rightarrow> kwh0 = e
             | None \<Rightarrow>
                 (\<exists>t. (case ImpactInputs.processingTimeSeconds inp of
                          Some s \<Rightarrow> positive s \<and> t = s
                        | None \<Rightarrow> (\<exists>u. usage inp = Some u
                                     \<and> deriveProcessingTimeSeconds u (throughput inp) = Inr t))
                      \<and> applyEfficiencyToTime t (ImpactInputs.efficiency inp)
                          = Inr (ImpactResult.processingTimeSeconds r)
                      \<and> kwh0 = num_div (num_div (num_mul p (ImpactResult.processingTimeSeconds r))
                                          (Fin 3600)) (Fin 1000)))
         \<and> applyBatchSize kwh0 (ImpactInputs.efficiency inp) = Inr (ImpactResult.energyKwh r)
         \<and> ImpactResult.effectivePowerW r = p
         \<and> ImpactResult.gridCarbonIntensityGPerKwh r
             = fst (resolveGridIntensity env (ImpactInputs.region inp)
                      (ImpactInputs.gridCarbonIntensityGPerKwh inp)
                      (ImpactInputs.gridIntensityResolver inp) (ImpactInputs.timestamp inp))
         \<and> ImpactResult.co2Grams r
             = num_mul (ImpactResult.energyKwh r)
                 (toNumber (ImpactResult.gridCarbonIntensityGPerKwh r))"
proof (cases "resolveEnergyKwh (ImpactInputs.energy inp)")
  case None
  then show ?thesis
    using assms
    by (auto simp: estimateImpact_def Let_def and_then_eq_Inr requirePositive_alt
          split: option.splits if_splits prod.splits)
next
  case (Some e)
  then show ?thesis
    using assms
    by (auto simp: estimateImpact_def Let_def and_then_eq_Inr requirePositive_alt
          split: option.splits if_splits prod.splits)
qed

lemma ordinary_simps [simp]:
  "\<not> ordinary NaN" "ordinary PInf" "\<not> ordinary NInf" "ordinary (Fin q) \<longleftrightarrow> 0 \<le> q"
  by (auto simp: ordinary_def num_le_def)

lemma ordinary_iff: "ordinary v \<longleftrightarrow> notNegative v \<and> v \<noteq> NaN"
  by (cases v) auto

lemma num_le_rnd:
  "0 \<le> x \<Longrightarrow> x \<le> y \<Longrightarrow> num_le (rnd x) (rnd y)"
  by (rule rnd_mono_nonneg)

lemma ordinary_rnd: "0 \<le> x \<Longrightarrow> ordinary (rnd x)"
  using rnd_nonneg [of x] by auto

lemma num_le_PInf: "v \<noteq> NaN \<Longrightarrow> num_le v PInf"
  by (cases v) (auto simp: num_le_def)

lemma num_le_refl: "v \<noteq> NaN \<Longrightarrow> num_le v v"
  by (cases v) (auto simp: num_le_def)

lemma ordinary_le: "ordinary a \<Longrightarrow> num_le a b \<Longrightarrow> ordinary b"
  by (cases a; cases b) (auto simp: num_le_def)

lemma num_div_mono:
  assumes "ordinary a" and "num_le a b" and "positive c"
  shows "num_le (num_div a c) (num_div b c)"
proof -
  obtain q where c: "c = Fin q" "0 < q" using assms(3) by (auto simp: positive_Fin)
  show ?thesis
  proof (cases a)
    case (Fin x)
    then have x: "0 \<le> x" using assms(1) by simp
    show ?thesis
    proof (cases b)
      case (Fin y)
      then have "x \<le> y" using assms(2) \<open>a = Fin x\<close> by (simp add: num_le_def)
      then have "x / q \<le> y / q" using c(2) by (simp add: divide_right_mono)
      moreover have "0 \<le> x / q" using x c(2) by simp
      ultimately show ?thesis
        using c \<open>a = Fin x\<close> Fin by (simp add: num_le_rnd)
    next
      case PInf
      have "ordinary (rnd (x / q))" using x c(2) by (intro ordinary_rnd) simp
      then show ?thesis
        using c \<open>a = Fin x\<close> PInf by (auto simp: ordinary_iff intro: num_le_PInf)
    qed (use assms(2) \<open>a = Fin x\<close> in \<open>auto simp: num_le_def\<close>)
  next
    case PInf
    then have "b = PInf" using assms(2) by (cases b) (auto simp: num_le_def)
    then show ?thesis using PInf c by (simp add: num_le_def)
  qed (use assms(1) in auto)
qed

lemma num_mul_mono:
  assumes "ordinary p" and "ordinary a" and "num_le a b"
    and "num_mul p a \<noteq> NaN" and "num_mul p b \<noteq> NaN"
  shows "num_le (num_mul p a) (num_mul p b)"
proof (cases p)
  case (Fin x)
  then have x: "0 \<le> x" using assms(1) by simp
  show ?thesis
  proof (cases a)
    case a: (Fin y)
    then have y: "0 \<le> y" using assms(2) by simp
    show ?thesis
    proof (cases b)
      case b: (Fin z)
      then have "y \<le> z" using assms(3) a by (simp add: num_le_def)
      then have "x * y \<le> x * z" using x by (simp add: mult_left_mono)
      moreover have "0 \<le> x * y" using x y by simp
      ultimately show ?thesis using Fin a b by (simp add: num_le_rnd)
    next
      case PInf
      then have "num_mul p b = PInf" using assms(5) Fin x by (auto split: if_splits)
      then show ?thesis using assms(4) by (simp add: num_le_PInf)
    qed (use assms(3) a in \<open>auto simp: num_le_def\<close>)
  next
    case PInf
    then have b: "b = PInf" using assms(3) by (cases b) (auto simp: num_le_def)
    show ?thesis using PInf b assms(4) by (simp add: num_le_refl)
  qed (use assms(2) in auto)
next
  case PInf
  have "num_mul PInf v = PInf" if "ordinary v" "num_mul PInf v \<noteq> NaN" for v
    using that by (cases v) (auto split: if_splits)
  then have "num_mul PInf a = PInf" and "num_mul PInf b = PInf"
    using assms(2,4,5) ordinary_le [OF assms(2,3)] PInf by simp_all
  then show ?thesis using PInf by (simp add: num_le_def)
qed (use assms(1) in auto)

lemma num_div_not_NaN: "num_div a b \<noteq> NaN \<Longrightarrow> a \<noteq> NaN"
  by (cases a) auto

lemma Math_min_le: "num_le b a \<Longrightarrow> Math_min a b = b"
  by (cases a; cases b) (auto simp: Math_min_def num_le_def)

lemma Math_max_le: "num_le b a \<Longrightarrow> Math_max a b = a"
  by (cases a; cases b) (auto simp: Math_max_def num_le_def)

lemma buildInputWithRanges_efficiencyFactorOnly:
  "buildInputWithRanges inp (efficiencyFactorOnly lo hi) pk
     = withEfficiencyFactor inp (if pk = PickMin then lo else hi)"
  by (cases "throughput inp"; cases "ImpactInputs.efficiency inp")
     (simp_all add: buildInputWithRanges_def efficiencyFactorOnly_def noRanges_def
        withEfficiencyFactor_def pickRangeValue_def Let_def)

lemma computeEffectivePowerW_withEfficiencyFactor:
  "computeEffectivePowerW (withEfficiencyFactor inp f) = computeEffectivePowerW inp"
  by (cases "ImpactInputs.efficiency inp")
     (simp_all add: computeEffectivePowerW_def withEfficiencyFactor_def emptyEfficiency_def)

lemma applyBatchSize_withEfficiencyFactor:
  "applyBatchSize k (ImpactInputs.efficiency (withEfficiencyFactor inp f))
     = applyBatchSize k (ImpactInputs.efficiency inp)"
  by (cases "ImpactInputs.efficiency inp")
     (simp_all add: applyBatchSize_def withEfficiencyFactor_def emptyEfficiency_def)

lemma applyEfficiencyToTime_withEfficiencyFactor:
  assumes "positive f"
  shows "applyEfficiencyToTime t (ImpactInputs.efficiency (withEfficiencyFactor inp f))
           = Inr (num_div t f)"
  using assms
  by (simp add: applyEfficiencyToTime_cases withEfficiencyFactor_def positive_truthy)

lemma timeSource_unique: "timeSource inp t \<Longrightarrow> timeSource inp t' \<Longrightarrow> t = t'"
  by (auto simp: timeSource_def split: option.splits)

lemma timeSource_notNegative: "timeSource inp t \<Longrightarrow> notNegative t"
  by (auto simp: timeSource_def intro: positive_notNegative notNegative_derive
        split: option.splits)

lemma estimateImpact_withEfficiencyFactor:
  assumes "resolveEnergyKwh (ImpactInputs.energy inp) = None"
    and "positive f"
    and "estimateImpact env (withEfficiencyFactor inp f) = Inr r"
  shows "\<exists>p ns t. computeEffectivePowerW inp = Inr (p, ns) \<and> timeSource inp t
           \<and> applyBatchSize
                (num_div (num_div (num_mul p (num_div t f)) (Fin 3600)) (Fin 1000))
                (ImpactInputs.efficiency inp)
              = Inr (ImpactResult.energyKwh r)"
proof -
  have e: "resolveEnergyKwh (ImpactInputs.energy (withEfficiencyFactor inp f)) = None"
    using assms(1) by (simp add: withEfficiencyFactor_def)
  have s: "timeSource (withEfficiencyFactor inp f) t = timeSource inp t" for t
    by (simp add: timeSource_def withEfficiencyFactor_def cong: option.case_cong)
  from estimateImpact_Inr [OF assms(3)] obtain p ns kwh0 t where
    pw: "computeEffectivePowerW inp = Inr (p, ns)"
    and src: "timeSource (withEfficiencyFactor inp f) t"
    and ap: "applyEfficiencyToTime t (ImpactInputs.efficiency (withEfficiencyFactor inp f))
               = Inr (ImpactResult.processingTimeSeconds r)"
    and k: "kwh0 = num_div (num_div (num_mul p (ImpactResult.processingTimeSeconds r))
                            (Fin 3600)) (Fin 1000)"
    and b: "applyBatchSize kwh0 (ImpactInputs.efficiency inp) = Inr (ImpactResult.energyKwh r)"
    unfolding e computeEffectivePowerW_withEfficiencyFactor
      applyBatchSize_withEfficiencyFactor timeSource_def
    by auto
  have "ImpactResult.processingTimeSeconds r = num_div t f"
    using ap unfolding applyEfficiencyToTime_withEfficiencyFactor [OF assms(2)] by simp
  with pw src b k show ?thesis unfolding s by auto
qed

lemma applyBatchSize_mono:
  assumes "applyBatchSize a eff = Inr a'" and "applyBatchSize b eff = Inr b'"
    and "ordinary a" and "num_le a b"
  shows "num_le a' b'"
  using assms
  by (auto simp: applyBatchSize_cases intro: num_div_mono split: option.splits if_splits)

lemma applyBatchSize_not_NaN:
  assumes "applyBatchSize a eff = Inr a'" and "a' \<noteq> NaN"
  shows "a \<noteq> NaN"
  using assms
  by (auto simp: applyBatchSize_cases split: option.splits if_splits)

lemma num_mul_not_NaN: "num_mul a b \<noteq> NaN \<Longrightarrow> a \<noteq> NaN \<and> b \<noteq> NaN"
  by (cases a; cases b) auto

lemma ordinary_div: "ordinary a \<Longrightarrow> positive c \<Longrightarrow> ordinary (num_div a c)"
  by (cases a) (auto simp: positive_Fin intro!: ordinary_rnd)

lemma halved_le:
  assumes "ordinary t"
  shows "num_le (num_div t (Fin 2)) (num_div t (Fin 1))"
proof (cases t)
  case (Fin q)
  then have "0 \<le> q" using assms by simp
  then have "0 \<le> q / 2" and "q / 2 \<le> q / 1" by simp_all
  then show ?thesis using Fin by (simp add: num_le_rnd del: div_by_1)
qed (use assms in \<open>auto simp: num_le_def\<close>)

lemma energy_halved_le:
  assumes p: "notNegative p" and t: "notNegative t"
    and lo: "applyBatchSize
               (num_div (num_div (num_mul p (num_div t (Fin 1))) (Fin 3600)) (Fin 1000)) eff
             = Inr elow"
    and hi: "applyBatchSize
               (num_div (num_div (num_mul p (num_div t (Fin 2))) (Fin 3600)) (Fin 1000)) eff
             = Inr ehigh"
    and "elow \<noteq> NaN" and "ehigh \<noteq> NaN"
  shows "num_le ehigh elow"
proof -
  let ?s1 = "num_div t (Fin 1)" and ?s2 = "num_div t (Fin 2)"
  have m1: "num_mul p ?s1 \<noteq> NaN"
    using applyBatchSize_not_NaN [OF lo \<open>elow \<noteq> NaN\<close>] by (auto dest!: num_div_not_NaN)
  have m2: "num_mul p ?s2 \<noteq> NaN"
    using applyBatchSize_not_NaN [OF hi \<open>ehigh \<noteq> NaN\<close>] by (auto dest!: num_div_not_NaN)
  have pn: "p \<noteq> NaN" and s2n: "?s2 \<noteq> NaN"
    using num_mul_not_NaN [OF m2] by simp_all
  have tn: "t \<noteq> NaN" using s2n by (rule num_div_not_NaN)
  have po: "ordinary p" and to: "ordinary t"
    using p t pn tn by (simp_all add: ordinary_iff)
  have pos: "positive (Fin 2)" "positive (Fin 3600)" "positive (Fin 1000)"
    by (simp_all add: positive_Fin)
  have s2o: "ordinary ?s2"
    using notNegative_div [OF t pos(1)] s2n by (simp add: ordinary_iff)
  have "num_le (num_mul p ?s2) (num_mul p ?s1)"
    using po s2o halved_le [OF to] m2 m1 by (rule num_mul_mono)
  moreover have "ordinary (num_mul p ?s2)"
    using notNegative_mul [OF p notNegative_div [OF t pos(1)]] m2 by (simp add: ordinary_iff)
  ultimately have d1: "num_le (num_div (num_mul p ?s2) (Fin 3600))
                         (num_div (num_mul p ?s1) (Fin 3600))"
    and o1: "ordinary (num_div (num_mul p ?s2) (Fin 3600))"
    using pos(2) by (auto intro: num_div_mono ordinary_div)
  have d2: "num_le (num_div (num_div (num_mul p ?s2) (Fin 3600)) (Fin 1000))
              (num_div (num_div (num_mul p ?s1) (Fin 3600)) (Fin 1000))"
    using o1 d1 pos(3) by (rule num_div_mono)
  have o2: "ordinary (num_div (num_div (num_mul p ?s2) (Fin 3600)) (Fin 1000))"
    using o1 pos(3) by (rule ordinary_div)
  from applyBatchSize_mono [OF hi lo o2 d2] show ?thesis .
qed

lemma no_override_resolveEnergyKwh:
  "\<not> hasEnergyOverride inp \<Longrightarrow> resolveEnergyKwh (ImpactInputs.energy inp) = None"
  by (auto simp: hasEnergyOverride_def resolveEnergyKwh_def truthy_opt_def
        split: option.splits)

lemma estimateImpact_given_time:
  assumes "resolveEnergyKwh (ImpactInputs.energy inp) = None"
    and "computeEffectivePowerW inp = Inr (p, ns)"
    and "ImpactInputs.processingTimeSeconds inp = Some s" and "positive s"
    and "applyEfficiencyToTime s (ImpactInputs.efficiency inp) = Inr secs"
    and "applyBatchSize (num_div (num_div (num_mul p secs) (Fin 3600)) (Fin 1000))
           (ImpactInputs.efficiency inp) = Inr k"
  shows "map_sum id ImpactResult.energyKwh (estimateImpact env inp) = Inr k"
  using assms by (simp add: estimateImpact_def requirePositive_alt Let_def)

lemma cornerPower:
  "computeEffectivePowerW cornerInput
     = Inr (PInf, [BasePowerNote PInf, OverheadFactorNote (Fin 1), PueNote (Fin 1)])"
proof -
  have "rnd (2 ^ 1023 + 2 ^ 1023) = PInf" by (rule rnd_overflow) simp
  then show ?thesis
    by (simp add: computeEffectivePowerW_cases cornerInput_def Let_def positive_Fin truthy_def
          basePower_def clamp_def DEFAULT_OVERHEAD_def DEFAULT_PUE_def
          Math_min_def Math_max_def tenth)
qed

lemma cornerEnergy:
  assumes "f = Fin 1 \<or> f = Fin 2"
  shows "map_sum id ImpactResult.energyKwh
           (estimateImpact sampleHost (withEfficiencyFactor cornerInput f))
         = Inr (if f = Fin 1 then PInf else NaN)"
proof -
  have pf: "positive f" using assms by (auto simp: positive_Fin)
  have half: "rnd (1 / 2 ^ 1074 / 2) = Fin 0" by (rule rnd_underflow) simp_all
  have one: "rnd (1 / 2 ^ 1074 / 1) = Fin (1 / 2 ^ 1074)"
    using rnd_min_subnormal by simp
  have s: "num_div (Fin (1 / 2 ^ 1074)) f = (if f = Fin 1 then Fin (1 / 2 ^ 1074) else Fin 0)"
    using assms half one by auto
  have nz: "Fin (1 / 2 ^ 1074) \<noteq> Fin 0" by simp
  show ?thesis
  proof (rule estimateImpact_given_time)
    show "resolveEnergyKwh (ImpactInputs.energy (withEfficiencyFactor cornerInput f)) = None"
      by (simp add: withEfficiencyFactor_def cornerInput_def resolveEnergyKwh_def)
    show "computeEffectivePowerW (withEfficiencyFactor cornerInput f)
            = Inr (PInf, [BasePowerNote PInf, OverheadFactorNote (Fin 1), PueNote (Fin 1)])"
      by (simp add: computeEffectivePowerW_withEfficiencyFactor cornerPower)
    show "ImpactInputs.processingTimeSeconds (withEfficiencyFactor cornerInput f)
            = Some (Fin (1 / 2 ^ 1074))"
      by (simp add: withEfficiencyFactor_def cornerInput_def)
    show "positive (Fin (1 / 2 ^ 1074))" by (simp add: positive_def num_gt_def)
    show "applyEfficiencyToTime (Fin (1 / 2 ^ 1074))
            (ImpactInputs.efficiency (withEfficiencyFactor cornerInput f))
          = Inr (num_div (Fin (1 / 2 ^ 1074)) f)"
      by (rule applyEfficiencyToTime_withEfficiencyFactor [OF pf])
    show "applyBatchSize
            (num_div (num_div (num_mul PInf (num_div (Fin (1 / 2 ^ 1074)) f)) (Fin 3600))
               (Fin 1000))
            (ImpactInputs.efficiency (withEfficiencyFactor cornerInput f))
          = Inr (if f = Fin 1 then PInf else NaN)"
      unfolding s applyBatchSize_withEfficiencyFactor
      by (simp add: applyBatchSize_cases cornerInput_def)
  qed
qed

lemma map_sum_Inr: "map_sum id f x = Inr k \<longleftrightarrow> (\<exists>b. x = Inr b \<and> f b = k)"
  by (cases x) auto

lemma resolveGridIntensity_no_resolver:
  "fst (resolveGridIntensity env rg None None ts) = tableIntensity env rg"
  by (auto simp: resolveGridIntensity_def tableIntensity_def globalIntensity_def Let_def
        split: option.splits)

lemma rnd_not_NaN [simp]: "rnd x \<noteq> NaN"
  by (simp add: rnd_def Let_def)

lemma num_mul_Fin_not_NaN:
  assumes "a \<noteq> NaN" and "y \<noteq> 0"
  shows "num_mul a (Fin y) \<noteq> NaN"
  using assms by (cases a) auto

lemma clampedTo_clamp:
  assumes "v \<noteq> NaN" and "num_le (Fin lo) (Fin hi)"
  shows "clamp (Fin lo) v (Fin hi) = clampedTo (Fin lo) (Fin hi) v"
  using assms
  by (cases v) (auto simp: clamp_def clampedTo_def Math_min_def Math_max_def num_le_def)

lemma clampedTo_range:
  assumes "v \<noteq> NaN" and "num_le (Fin lo) (Fin hi)"
  shows "num_le (Fin lo) (clampedTo (Fin lo) (Fin hi) v)
       \<and> num_le (clampedTo (Fin lo) (Fin hi) v) (Fin hi)"
  using assms by (cases v) (auto simp: clampedTo_def num_le_def)

lemma allBounds_buildInputWithRanges:
  "allBounds pk ranges inp (buildInputWithRanges inp ranges pk)"
  by (cases "throughput inp"; cases "ImpactInputs.efficiency inp"; cases pk)
     (simp_all add: allBounds_def buildInputWithRanges_def pickRangeValue_def ranged_def
        bound_def Let_def emptyThroughput_def emptyEfficiency_def split: option.splits)

lemma estimateImpact_power_error:
  assumes "computeEffectivePowerW inp = Inl e"
  shows "estimateImpact env inp = Inl e"
  using assms by (simp add: estimateImpact_def)

lemma computeEffectivePowerW_zero_cpu:
  "computeEffectivePowerW (inp\<lparr>cpuPowerW := Some (Fin 0)\<rparr>)
     = computeEffectivePowerW (inp\<lparr>cpuPowerW := None\<rparr>)"
  by (simp add: computeEffectivePowerW_def Let_def truthy_def)

lemma computeEffectivePowerW_zero_network:
  "computeEffectivePowerW (inp\<lparr>networkPowerW := Some (Fin 0)\<rparr>)
     = computeEffectivePowerW (inp\<lparr>networkPowerW := None\<rparr>)"
  by (simp add: computeEffectivePowerW_def Let_def truthy_def)

lemma rejected_iff: "rejected v \<longleftrightarrow> truthy v \<and> \<not> positive v"
  by (cases v) (auto simp: rejected_def truthy_def positive_def num_gt_def)

lemma aggregateImpacts_step:
  "aggregateImpacts results =
     foldl aggregateStep \<lparr>count = 0, AggregateImpactResult.energyKwh = Fin 0,
                 AggregateImpactResult.co2Grams = Fin 0\<rparr> results"
  unfolding aggregateImpacts_def aggregateStep_def ..

lemma foldl_step_count: "count (foldl aggregateStep acc xs) = count acc + length xs"
  by (induction xs arbitrary: acc) (simp_all add: aggregateStep_def)

lemma foldl_step_energy:
  "AggregateImpactResult.energyKwh (foldl aggregateStep acc xs)
     = foldl num_add (AggregateImpactResult.energyKwh acc) (map ImpactResult.energyKwh xs)"
  by (induction xs arbitrary: acc) (simp_all add: aggregateStep_def)

lemma foldl_step_co2:
  "AggregateImpactResult.co2Grams (foldl aggregateStep acc xs)
     = foldl num_add (AggregateImpactResult.co2Grams acc) (map ImpactResult.co2Grams xs)"
  by (induction xs arbitrary: acc) (simp_all add: aggregateStep_def)

lemma foldl_exact:
  "exactSum acc vs \<Longrightarrow> foldl num_add (Fin acc) vs = Fin (acc + sum_list (map finite_value vs))"
proof (induction acc vs rule: exactSum.induct)
  case (1 acc)
  then show ?case by simp
next
  case (2 acc x vs)
  then show ?case by (simp add: representable_def add.assoc)
qed simp_all

lemma sum_list_perm:
  fixes f :: "'a \<Rightarrow> rat"
  assumes "mset xs = mset ys"
  shows "sum_list (map f xs) = sum_list (map f ys)"
proof -
  have "sum_list (map f xs) = sum_mset (image_mset f (mset xs))"
    by (simp add: sum_mset_sum_list [symmetric])
  also have "\<dots> = sum_mset (image_mset f (mset ys))" by (simp add: assms)
  also have "\<dots> = sum_list (map f ys)" by (simp add: sum_mset_sum_list [symmetric])
  finally show ?thesis .
qed


lemma sample_estimate: "estimateImpact sampleHost sampleInput = Inr sampleResult"
  by code_simp

lemma constructor_estimate:
  "estimateImpact sampleHost constructorInput = Inr constructorResult"
  by code_simp

lemma positiveEntries_sampleHost: "positiveEntries sampleHost"
  by (auto simp: positiveEntries_def sampleHost_def sampleValues_def num_gt_def eu_value
        split: if_splits)

text \<open>Region lookups at the edges: white space around a name is trimmed, no-break space
  included; a key that the tables inherit is found, and what it finds is no number; a
  region of white space alone is no region.\<close>

lemma normalizeRegion_edges:
  "normalizeRegion sampleHost (Some (160 # js '' UK'' @ [8195, 10])) = Some (Declared (js ''uk''))"
  "normalizeRegion sampleHost (Some (js ''Europe'')) = Some (Declared (js ''eu''))"
  "normalizeRegion sampleHost (Some (js ''constructor'')) = Some (Declared (js ''constructor''))"
  "normalizeRegion sampleHost (Some (js ''__proto__'')) = Some (Declared (js ''__proto__''))"
  "normalizeRegion sampleHost (Some (js ''  '')) = None"
  "normalizeRegion sampleHost (Some []) = None"
  by code_simp+

lemma resolveGridIntensity_edges:
  "resolveGridIntensity sampleHost (Some (js ''constructor'')) None None None
     = (PrototypeMember (js ''constructor''), [])"
  "resolveGridIntensity sampleHost (Some (js ''  '')) None None None
     = (Declared (Fin 475), [ConsoleWarn (js ''  '')])"
  "resolveGridIntensity sampleHost (Some (160 # js ''uk'')) None (Some ukResolver) None
     = (Declared (Fin 100), [ResolverCalled (Some (Declared (js ''uk''))) None])"
  by code_simp+

lemma efficiency_estimate:
  "estimateImpact sampleHost efficiencyInput = Inr efficiencyResult"
  by code_simp

lemma sample_high_input:
  "buildInputWithRanges sampleInput (efficiencyFactorOnly (Fin 1) (Fin 2)) PickMax
     = efficiencyInput"
  by (simp add: buildInputWithRanges_efficiencyFactorOnly withEfficiencyFactor_def
        efficiencyInput_def sampleInput_def)

lemma validateRanges_efficiencyFactorOnly:
  "validateRanges (efficiencyFactorOnly (Fin 1) (Fin 2)) = Inr ()"
  by code_simp

section \<open>Energy and carbon of an accepted input\<close>

text \<open>
  Claim C1 says that every input \<^verbatim>\<open>estimateImpact\<close> accepts gives
  \<^verbatim>\<open>energyKwh >= 0\<close> and \<^verbatim>\<open>co2Grams >= 0\<close>.  An \<^verbatim>\<open>overheadFactor\<close> of \<open>NaN\<close> is
  accepted: \<^verbatim>\<open>clamp\<close> hands it on (\<^verbatim>\<open>Math.min\<close> and \<^verbatim>\<open>Math.max\<close> return \<open>NaN\<close> on
  \<open>NaN\<close>), the effective power, the energy and the carbon are \<open>NaN\<close>, and
  \<^verbatim>\<open>NaN >= 0\<close> is false.  So claim C1 fails at \<open>nanOverheadInput\<close>.
\<close>

theorem nan_overhead_counterexample:
  "estimateImpact sampleHost nanOverheadInput = Inr nanOverheadResult
   \<and> ImpactResult.energyKwh nanOverheadResult = NaN
   \<and> \<not> num_ge (ImpactResult.energyKwh nanOverheadResult) (Fin 0)
   \<and> \<not> num_ge (ImpactResult.co2Grams nanOverheadResult) (Fin 0)"
proof -
  have "estimateImpact sampleHost nanOverheadInput = Inr nanOverheadResult"
    by code_simp
  then show ?thesis by (simp add: nanOverheadResult_def num_ge_def num_le_def)
qed

text \<open>
  Claim C1, amended.  For every input \<^verbatim>\<open>estimateImpact\<close> accepts, on a dataset whose
  entries are above zero, \<^verbatim>\<open>energyKwh\<close> and \<^verbatim>\<open>co2Grams\<close> are never negative (each is
  zero or more, or \<open>NaN\<close>), and \<^verbatim>\<open>co2Grams\<close> is the floating-point product of the
  \<^verbatim>\<open>energyKwh\<close> and the \<^verbatim>\<open>gridCarbonIntensityGPerKwh\<close> of the same result, taken
  as a number (the intensity found under a key that the table inherits is a function, as
  a number \<open>NaN\<close>).
\<close>

theorem energy_and_carbon_never_negative:
  assumes "positiveEntries env" and "estimateImpact env inp = Inr r"
  shows "notNegative (ImpactResult.energyKwh r)
       \<and> notNegative (ImpactResult.co2Grams r)
       \<and> ImpactResult.co2Grams r
           = num_mul (ImpactResult.energyKwh r)
               (toNumber (ImpactResult.gridCarbonIntensityGPerKwh r))"
proof -
  from estimateImpact_Inr [OF assms(2)] obtain p ns kwh0 where
    pw: "computeEffectivePowerW inp = Inr (p, ns)"
    and path: "(case resolveEnergyKwh (ImpactInputs.energy inp) of
               Some e \<Rightarrow> kwh0 = e
             | None \<Rightarrow>
                 (\<exists>t. (case ImpactInputs.processingTimeSeconds inp of
                          Some s \<Rightarrow> positive s \<and> t = s
                        | None \<Rightarrow> (\<exists>u. usage inp = Some u
                                     \<and> deriveProcessingTimeSeconds u (throughput inp) = Inr t))
                      \<and> applyEfficiencyToTime t (ImpactInputs.efficiency inp)
                          = Inr (ImpactResult.processingTimeSeconds r)
                      \<and> kwh0 = num_div (num_div (num_mul p (ImpactResult.processingTimeSeconds r))
                                          (Fin 3600)) (Fin 1000)))"
    and batch: "applyBatchSize kwh0 (ImpactInputs.efficiency inp) = Inr (ImpactResult.energyKwh r)"
    and grid: "ImpactResult.gridCarbonIntensityGPerKwh r
             = fst (resolveGridIntensity env (ImpactInputs.region inp)
                      (ImpactInputs.gridCarbonIntensityGPerKwh inp)
                      (ImpactInputs.gridIntensityResolver inp) (ImpactInputs.timestamp inp))"
    and co2: "ImpactResult.co2Grams r
             = num_mul (ImpactResult.energyKwh r)
                 (toNumber (ImpactResult.gridCarbonIntensityGPerKwh r))"
    by blast
  have p: "notNegative p" using pw by (rule notNegative_power)
  have k0: "notNegative kwh0"
  proof (cases "resolveEnergyKwh (ImpactInputs.energy inp)")
    case (Some e)
    then show ?thesis using path notNegative_resolveEnergy [OF Some] by simp
  next
    case None
    with path obtain t where
      t: "case ImpactInputs.processingTimeSeconds inp of
            Some s \<Rightarrow> positive s \<and> t = s
          | None \<Rightarrow> (\<exists>u. usage inp = Some u
                       \<and> deriveProcessingTimeSeconds u (throughput inp) = Inr t)"
      and a: "applyEfficiencyToTime t (ImpactInputs.efficiency inp)
                = Inr (ImpactResult.processingTimeSeconds r)"
      and k: "kwh0 = num_div (num_div (num_mul p (ImpactResult.processingTimeSeconds r))
                                (Fin 3600)) (Fin 1000)"
      by auto
    have "notNegative t"
      using t by (auto intro: positive_notNegative notNegative_derive split: option.splits)
    then have "notNegative (ImpactResult.processingTimeSeconds r)"
      using a by (rule notNegative_applyEfficiency [rotated])
    then show ?thesis
      unfolding k using p
      by (intro notNegative_div notNegative_mul) (simp_all add: positive_Fin)
  qed
  have e: "notNegative (ImpactResult.energyKwh r)"
    using batch k0 by (rule notNegative_applyBatch)
  have g: "notNegative (toNumber (ImpactResult.gridCarbonIntensityGPerKwh r))"
    unfolding grid by (rule notNegative_grid [OF assms(1)])
  have "notNegative (ImpactResult.co2Grams r)"
    unfolding co2 using e g by (rule notNegative_mul)
  with e co2 show ?thesis by simp
qed

theorem energy_and_carbon_never_negative_witness:
  "positiveEntries sampleHost
   \<and> estimateImpact sampleHost sampleInput = Inr sampleResult
   \<and> notNegative (ImpactResult.energyKwh sampleResult)
   \<and> notNegative (ImpactResult.co2Grams sampleResult)
   \<and> ImpactResult.co2Grams sampleResult
       = num_mul (ImpactResult.energyKwh sampleResult)
           (toNumber (ImpactResult.gridCarbonIntensityGPerKwh sampleResult))
   \<and> estimateImpact sampleHost constructorInput = Inr constructorResult
   \<and> ImpactResult.co2Grams constructorResult
       = num_mul (ImpactResult.energyKwh constructorResult)
           (toNumber (ImpactResult.gridCarbonIntensityGPerKwh constructorResult))"
proof -
  have h1: "positiveEntries sampleHost" by (rule positiveEntries_sampleHost)
  have h2: "estimateImpact sampleHost sampleInput = Inr sampleResult"
    by (rule sample_estimate)
  have h3: "estimateImpact sampleHost constructorInput = Inr constructorResult"
    by (rule constructor_estimate)
  from energy_and_carbon_never_negative [OF h1 h2]
    energy_and_carbon_never_negative [OF h1 h3] h1 h2 h3
  show ?thesis by blast
qed

section \<open>The power model\<close>

text \<open>
  Claim C2 says that for every input with \<^verbatim>\<open>gpuPowerW > 0\<close> the effective power is
  \<open>(gpuPowerW + cpuPowerW + networkPowerW) * overheadFactor * pue\<close> with
  \<^verbatim>\<open>overheadFactor\<close> clamped to [0.1, 10] and \<^verbatim>\<open>pue\<close> to [1.0, 3.0].  The source
  clamps with \<^verbatim>\<open>Math.max(min, Math.min(value, max))\<close>, which hands \<open>NaN\<close> on: at
  \<open>nanOverheadInput\<close> (\<^verbatim>\<open>gpuPowerW: 350\<close>, \<^verbatim>\<open>overheadFactor: NaN\<close>) the factor is
  \<open>NaN\<close>, which is not in [0.1, 10], and the effective power is \<open>NaN\<close>, which no
  factor in [0.1, 10] and no \<^verbatim>\<open>pue\<close> in [1.0, 3.0] gives.  So claim C2 fails there.
\<close>

theorem nan_overhead_power_counterexample:
  "num_gt (ImpactInputs.gpuPowerW nanOverheadInput) (Fin 0)
   \<and> computeEffectivePowerW nanOverheadInput
       = Inr (NaN, [BasePowerNote (Fin 350), OverheadFactorNote NaN, PueNote (Fin 1)])
   \<and> \<not> (num_le (rnd (1 / 10)) NaN \<and> num_le NaN (Fin 10))
   \<and> \<not> (\<exists>f q. num_le (rnd (1 / 10)) f \<and> num_le f (Fin 10)
              \<and> num_le (Fin 1) q \<and> num_le q (Fin 3)
              \<and> num_mul (num_mul (Fin 350) f) q = NaN)"
proof -
  have 1: "num_gt (ImpactInputs.gpuPowerW nanOverheadInput) (Fin 0)" by code_simp
  have 2: "computeEffectivePowerW nanOverheadInput
       = Inr (NaN, [BasePowerNote (Fin 350), OverheadFactorNote NaN, PueNote (Fin 1)])"
    by code_simp
  have 3: "\<not> (num_le (rnd (1 / 10)) NaN \<and> num_le NaN (Fin 10))"
    by (simp add: num_le_def)
  have 4: "num_mul (num_mul (Fin 350) f) q \<noteq> NaN"
    if "num_le (rnd (1 / 10)) f" "num_le f (Fin 10)" "num_le (Fin 1) q" "num_le q (Fin 3)"
    for f q
  proof -
    from that(1,2) obtain x where f: "f = Fin x"
      by (cases f) (auto simp: num_le_def tenth)
    from that(3,4) obtain y where q: "q = Fin y" and y: "y \<noteq> 0"
      by (cases q) (auto simp: num_le_def)
    have "num_mul (Fin 350) f \<noteq> NaN" by (simp add: f)
    then show ?thesis unfolding q using y by (rule num_mul_Fin_not_NaN)
  qed
  from 1 2 3 4 show ?thesis by blast
qed

text \<open>
  Claim C2, amended.  For every input whose \<^verbatim>\<open>gpuPowerW\<close> is a finite number above
  zero, whose \<^verbatim>\<open>cpuPowerW\<close> and \<^verbatim>\<open>networkPowerW\<close> the power model lets through and
  whose \<^verbatim>\<open>overheadFactor\<close> and \<^verbatim>\<open>pue\<close> are not \<open>NaN\<close>, the power model returns
  the effective power \<open>(gpuPowerW + cpuPowerW + networkPowerW) * overheadFactor * pue\<close>
  (\<open>statedPower\<close>): an omitted \<^verbatim>\<open>cpuPowerW\<close> or \<^verbatim>\<open>networkPowerW\<close> counts as 0,
  \<^verbatim>\<open>overheadFactor\<close> is 1.0 when omitted and clamped to [0.1, 10], \<^verbatim>\<open>pue\<close> is 1.0
  when omitted and clamped to [1.0, 3.0], and the two factors used lie in these intervals.
  For every input, an \<^verbatim>\<open>overheadFactor\<close> of 20 gives what 10 gives, and 0.01 what
  0.1 gives.
\<close>

theorem effective_power_formula:
  assumes "positive (ImpactInputs.gpuPowerW inp)"
    and "acceptedPower (ImpactInputs.cpuPowerW inp)"
    and "acceptedPower (ImpactInputs.networkPowerW inp)"
    and "Option.bind (ImpactInputs.efficiency inp) EfficiencyOptions.overheadFactor \<noteq> Some NaN"
    and "Option.bind (ImpactInputs.efficiency inp) EfficiencyOptions.pue \<noteq> Some NaN"
  shows "map_sum id fst (computeEffectivePowerW inp) = Inr (statedPower inp)
       \<and> num_le (rnd (1 / 10))
            (statedOverheadFactor
               (Option.bind (ImpactInputs.efficiency inp) EfficiencyOptions.overheadFactor))
       \<and> num_le
            (statedOverheadFactor
               (Option.bind (ImpactInputs.efficiency inp) EfficiencyOptions.overheadFactor))
            (Fin 10)
       \<and> num_le (Fin 1)
            (statedPue (Option.bind (ImpactInputs.efficiency inp) EfficiencyOptions.pue))
       \<and> num_le (statedPue (Option.bind (ImpactInputs.efficiency inp) EfficiencyOptions.pue))
            (Fin 3)
       \<and> computeEffectivePowerW (withOverhead other e (Fin 20))
           = computeEffectivePowerW (withOverhead other e (Fin 10))
       \<and> computeEffectivePowerW (withOverhead other e (rnd (1 / 100)))
           = computeEffectivePowerW (withOverhead other e (rnd (1 / 10)))"
proof -
  let ?o = "Option.bind (ImpactInputs.efficiency inp) EfficiencyOptions.overheadFactor"
  let ?q = "Option.bind (ImpactInputs.efficiency inp) EfficiencyOptions.pue"
  let ?ov = "case ?o of None \<Rightarrow> Fin 1 | Some x \<Rightarrow> x"
  let ?qv = "case ?q of None \<Rightarrow> Fin 1 | Some x \<Rightarrow> x"
  have t: "rnd (1 / 10) = Fin (3602879701896397 / 36028797018963968)" by (rule tenth)
  have on: "?ov \<noteq> NaN" using assms(4) by (auto split: option.splits)
  have qn: "?qv \<noteq> NaN" using assms(5) by (auto split: option.splits)
  have oc: "clamp (rnd (1 / 10)) ?ov (Fin 10) = statedOverheadFactor ?o"
    unfolding statedOverheadFactor_def t
    by (rule clampedTo_clamp [OF on]) (simp add: num_le_def)
  have qc: "clamp (Fin 1) ?qv (Fin 3) = statedPue ?q"
    unfolding statedPue_def by (rule clampedTo_clamp [OF qn]) (simp add: num_le_def)
  have orange: "num_le (rnd (1 / 10)) (statedOverheadFactor ?o)
                \<and> num_le (statedOverheadFactor ?o) (Fin 10)"
    unfolding statedOverheadFactor_def t
    by (rule clampedTo_range [OF on]) (simp add: num_le_def)
  have qrange: "num_le (Fin 1) (statedPue ?q) \<and> num_le (statedPue ?q) (Fin 3)"
    unfolding statedPue_def by (rule clampedTo_range [OF qn]) (simp add: num_le_def)
  have "computeEffectivePowerW inp
          = Inr (num_mul
                   (num_mul (basePower inp) (clamp (rnd (1 / 10)) ?ov (Fin 10)))
                   (clamp (Fin 1) ?qv (Fin 3)),
                 [BasePowerNote (basePower inp),
                  OverheadFactorNote (clamp (rnd (1 / 10)) ?ov (Fin 10)),
                  PueNote (clamp (Fin 1) ?qv (Fin 3))])"
    using assms(1,2,3)
    by (auto simp: computeEffectivePowerW_cases Let_def acceptedPower_def
          DEFAULT_OVERHEAD_def DEFAULT_PUE_def truthy_def split: option.splits)
  then have p: "map_sum id fst (computeEffectivePowerW inp) = Inr (statedPower inp)"
    by (simp add: oc qc statedPower_def)
  from p orange qrange
    computeEffectivePowerW_overhead [OF clamp_overhead_20, of other e]
    computeEffectivePowerW_overhead [OF clamp_overhead_hundredth, of other e]
  show ?thesis by blast
qed

theorem effective_power_formula_witness:
  "positive (ImpactInputs.gpuPowerW powerInput)
   \<and> acceptedPower (ImpactInputs.cpuPowerW powerInput)
   \<and> acceptedPower (ImpactInputs.networkPowerW powerInput)
   \<and> Option.bind (ImpactInputs.efficiency powerInput) EfficiencyOptions.overheadFactor
       = Some (Fin 20)
   \<and> Option.bind (ImpactInputs.efficiency powerInput) EfficiencyOptions.pue = Some (Fin 2)
   \<and> computeEffectivePowerW powerInput
       = Inr (Fin 8400, [BasePowerNote (Fin 420), OverheadFactorNote (Fin 10), PueNote (Fin 2)])
   \<and> statedPower powerInput = Fin 8400
   \<and> statedOverheadFactor (Some (Fin 20)) = Fin 10
   \<and> statedPue (Some (Fin 2)) = Fin 2"
proof -
  have h1: "positive (ImpactInputs.gpuPowerW powerInput)" by code_simp
  have h2: "acceptedPower (ImpactInputs.cpuPowerW powerInput)" by code_simp
  have h3: "acceptedPower (ImpactInputs.networkPowerW powerInput)" by code_simp
  have o: "Option.bind (ImpactInputs.efficiency powerInput) EfficiencyOptions.overheadFactor
             = Some (Fin 20)"
    by (simp add: powerInput_def withOverhead_def)
  have q: "Option.bind (ImpactInputs.efficiency powerInput) EfficiencyOptions.pue
             = Some (Fin 2)"
    by (simp add: powerInput_def withOverhead_def emptyEfficiency_def)
  have c: "computeEffectivePowerW powerInput
       = Inr (Fin 8400, [BasePowerNote (Fin 420), OverheadFactorNote (Fin 10), PueNote (Fin 2)])"
    by code_simp
  have so: "statedOverheadFactor (Some (Fin 20)) = Fin 10" by code_simp
  have sq: "statedPue (Some (Fin 2)) = Fin 2" by code_simp
  have h4: "Option.bind (ImpactInputs.efficiency powerInput) EfficiencyOptions.overheadFactor
              \<noteq> Some NaN"
    by (simp add: o)
  have h5: "Option.bind (ImpactInputs.efficiency powerInput) EfficiencyOptions.pue \<noteq> Some NaN"
    by (simp add: q)
  from effective_power_formula [OF h1 h2 h3 h4 h5, THEN conjunct1] c
  have "statedPower powerInput = Fin 8400" by simp
  with h1 h2 h3 o q c so sq show ?thesis by blast
qed

section \<open>The time model\<close>

text \<open>
  Claim C3.  For a chat, text or OCR usage without a \<^verbatim>\<open>processingTimeSeconds\<close> of
  its own, with \<^verbatim>\<open>inputTokens > 0\<close>, \<^verbatim>\<open>outputTokens > 0\<close> and
  \<^verbatim>\<open>tokensPerSecond > 0\<close>, the time \<^verbatim>\<open>deriveProcessingTimeSeconds\<close> derives is
  \<open>(inputTokens + outputTokens) / tokensPerSecond\<close> (and it derives one when the three
  are finite).  \<^verbatim>\<open>applyEfficiencyToTime\<close> divides a time by a supplied positive
  \<^verbatim>\<open>efficiencyFactor\<close> and leaves it alone when none is supplied; and where
  \<^verbatim>\<open>estimateImpact\<close> takes the path without an energy override and without a
  top-level \<^verbatim>\<open>processingTimeSeconds\<close>, the time of its result is the derived time
  treated so.
\<close>

theorem token_time_then_efficiency:
  assumes "tokenUsage u i out"
    and "num_gt i (Fin 0)" and "num_gt out (Fin 0)"
    and "Option.bind tp ThroughputConfig.tokensPerSecond = Some tps" and "num_gt tps (Fin 0)"
  shows "(\<forall>t. deriveProcessingTimeSeconds u tp = Inr t \<longrightarrow> t = num_div (num_add i out) tps)
       \<and> (Number_isFinite i \<and> Number_isFinite out \<and> Number_isFinite tps \<longrightarrow>
            deriveProcessingTimeSeconds u tp = Inr (num_div (num_add i out) tps))
       \<and> (\<forall>f. Option.bind eff EfficiencyOptions.efficiencyFactor = Some f \<and> positive f \<longrightarrow>
              applyEfficiencyToTime t0 eff = Inr (num_div t0 f))
       \<and> (Option.bind eff EfficiencyOptions.efficiencyFactor = None \<longrightarrow>
              applyEfficiencyToTime t0 eff = Inr t0)
       \<and> (\<forall>r. resolveEnergyKwh (ImpactInputs.energy inp) = None
              \<and> ImpactInputs.processingTimeSeconds inp = None
              \<and> usage inp = Some u \<and> throughput inp = tp
              \<and> estimateImpact env inp = Inr r \<longrightarrow>
              ImpactResult.processingTimeSeconds r =
                (case Option.bind (ImpactInputs.efficiency inp) EfficiencyOptions.efficiencyFactor of
                   None \<Rightarrow> num_div (num_add i out) tps
                 | Some f \<Rightarrow> if num_gt f (Fin 0)
                             then num_div (num_div (num_add i out) tps) f
                             else num_div (num_add i out) tps))"
proof -
  note d = deriveProcessingTimeSeconds_tokens [OF assms(1), of tp]
  have 1: "\<forall>t. deriveProcessingTimeSeconds u tp = Inr t \<longrightarrow> t = num_div (num_add i out) tps"
    unfolding d by (auto simp: assms(4) or_NaN_def split: if_splits)
  have 2: "Number_isFinite i \<and> Number_isFinite out \<and> Number_isFinite tps \<longrightarrow>
            deriveProcessingTimeSeconds u tp = Inr (num_div (num_add i out) tps)"
    unfolding d using assms(2,3,5) by (simp add: assms(4) or_NaN_def positive_def)
  have 3: "\<forall>f. Option.bind eff EfficiencyOptions.efficiencyFactor = Some f \<and> positive f \<longrightarrow>
              applyEfficiencyToTime t0 eff = Inr (num_div t0 f)"
    by (auto simp: applyEfficiencyToTime_cases positive_truthy)
  have 4: "Option.bind eff EfficiencyOptions.efficiencyFactor = None \<longrightarrow>
              applyEfficiencyToTime t0 eff = Inr t0"
    by (simp add: applyEfficiencyToTime_cases)
  have 5: "ImpactResult.processingTimeSeconds r =
                (case Option.bind (ImpactInputs.efficiency inp) EfficiencyOptions.efficiencyFactor of
                   None \<Rightarrow> num_div (num_add i out) tps
                 | Some f \<Rightarrow> if num_gt f (Fin 0)
                             then num_div (num_div (num_add i out) tps) f
                             else num_div (num_add i out) tps)"
    if h: "resolveEnergyKwh (ImpactInputs.energy inp) = None"
      "ImpactInputs.processingTimeSeconds inp = None"
      "usage inp = Some u" "throughput inp = tp" "estimateImpact env inp = Inr r" for r
  proof -
    from estimateImpact_time_path [OF h(1) h(5)] h(2,3,4)
    obtain t where t: "deriveProcessingTimeSeconds u tp = Inr t"
      and a: "applyEfficiencyToTime t (ImpactInputs.efficiency inp)
                = Inr (ImpactResult.processingTimeSeconds r)"
      by auto
    from 1 t have t': "t = num_div (num_add i out) tps" by blast
    show ?thesis
      using a unfolding t' applyEfficiencyToTime_cases
      by (auto simp: positive_def truthy_def num_gt_def split: option.splits if_splits)
  qed
  from 1 2 3 4 5 show ?thesis by blast
qed

theorem token_time_then_efficiency_witness:
  "tokenUsage (ChatCompletionUsage (Fin 1000) (Fin 200) None) (Fin 1000) (Fin 200)
   \<and> deriveProcessingTimeSeconds (ChatCompletionUsage (Fin 1000) (Fin 200) None)
         (throughput efficiencyInput) = Inr (Fin 12)
   \<and> applyEfficiencyToTime (Fin 12) (ImpactInputs.efficiency efficiencyInput) = Inr (Fin 6)
   \<and> applyEfficiencyToTime (Fin 12) (ImpactInputs.efficiency sampleInput) = Inr (Fin 12)
   \<and> estimateImpact sampleHost efficiencyInput = Inr efficiencyResult
   \<and> ImpactResult.processingTimeSeconds efficiencyResult = Fin 6"
proof -
  let ?u = "ChatCompletionUsage (Fin 1000) (Fin 200) None"
  have h1: "tokenUsage ?u (Fin 1000) (Fin 200)" by (simp add: tokenUsage_def)
  have h2: "num_gt (Fin 1000) (Fin 0)" and h3: "num_gt (Fin 200) (Fin 0)"
    and h5: "num_gt (Fin 100) (Fin 0)" by (simp_all add: num_gt_def)
  have h4: "Option.bind (throughput efficiencyInput) ThroughputConfig.tokensPerSecond
              = Some (Fin 100)"
    by (simp add: efficiencyInput_def sampleInput_def emptyThroughput_def)
  have t: "num_div (num_add (Fin 1000) (Fin 200)) (Fin 100) = Fin 12" by simp
  have e: "estimateImpact sampleHost efficiencyInput = Inr efficiencyResult"
    by (rule efficiency_estimate)
  have f: "Option.bind (ImpactInputs.efficiency efficiencyInput)
             EfficiencyOptions.efficiencyFactor = Some (Fin 2)"
    by (simp add: efficiencyInput_def emptyEfficiency_def)
  have g: "Option.bind (ImpactInputs.efficiency sampleInput)
             EfficiencyOptions.efficiencyFactor = None"
    by (simp add: sampleInput_def)
  have p: "positive (Fin 2)" by (simp add: positive_def num_gt_def)
  have i: "ImpactInputs.energy efficiencyInput = None
           \<and> ImpactInputs.processingTimeSeconds efficiencyInput = None
           \<and> usage efficiencyInput = Some ?u"
    by (simp add: efficiencyInput_def sampleInput_def)
  note T1 = token_time_then_efficiency [OF h1 h2 h3 h4 h5,
      of "ImpactInputs.efficiency efficiencyInput" "Fin 12" efficiencyInput sampleHost]
  note T2 = token_time_then_efficiency [OF h1 h2 h3 h4 h5,
      of "ImpactInputs.efficiency sampleInput" "Fin 12" efficiencyInput sampleHost]
  have c1: "deriveProcessingTimeSeconds ?u (throughput efficiencyInput) = Inr (Fin 12)"
    using T1 [THEN conjunct2, THEN conjunct1] by (simp add: t)
  have "applyEfficiencyToTime (Fin 12) (ImpactInputs.efficiency efficiencyInput)
          = Inr (num_div (Fin 12) (Fin 2))"
    using T1 [THEN conjunct2, THEN conjunct2, THEN conjunct1] f p by blast
  then have c2: "applyEfficiencyToTime (Fin 12) (ImpactInputs.efficiency efficiencyInput)
                   = Inr (Fin 6)"
    by simp
  have c3: "applyEfficiencyToTime (Fin 12) (ImpactInputs.efficiency sampleInput) = Inr (Fin 12)"
    using T2 [THEN conjunct2, THEN conjunct2, THEN conjunct2, THEN conjunct1] g by blast
  have r: "resolveEnergyKwh (ImpactInputs.energy efficiencyInput) = None"
    using i by (simp add: resolveEnergyKwh_def)
  have "ImpactResult.processingTimeSeconds efficiencyResult =
          (case Option.bind (ImpactInputs.efficiency efficiencyInput)
                  EfficiencyOptions.efficiencyFactor of
             None \<Rightarrow> num_div (num_add (Fin 1000) (Fin 200)) (Fin 100)
           | Some f \<Rightarrow> if num_gt f (Fin 0)
                       then num_div (num_div (num_add (Fin 1000) (Fin 200)) (Fin 100)) f
                       else num_div (num_add (Fin 1000) (Fin 200)) (Fin 100))"
    using T1 [THEN conjunct2, THEN conjunct2, THEN conjunct2, THEN conjunct2] r i e by blast
  then have c4: "ImpactResult.processingTimeSeconds efficiencyResult = Fin 6"
    unfolding f t by (simp add: num_gt_def)
  from h1 c1 c2 c3 e c4 show ?thesis by blast
qed

section \<open>Grid intensity: the explicit value\<close>

text \<open>
  Claim C4.  When \<^verbatim>\<open>gridCarbonIntensityGPerKwh\<close> is present and above zero,
  \<^verbatim>\<open>resolveGridIntensity\<close> returns exactly that value, whatever region, resolver and
  timestamp come with it and whatever the dataset holds; the resolver is not called and
  nothing is warned (the list of effects is empty).
\<close>

theorem explicit_grid_intensity_wins:
  assumes "num_gt v (Fin 0)"
  shows "resolveGridIntensity env rg (Some v) resolver ts = (Declared v, [])"
  using assms by (simp add: resolveGridIntensity_def Let_def)

theorem explicit_grid_intensity_wins_witness:
  "num_gt (Fin 300) (Fin 0) \<and>
   resolveGridIntensity sampleHost (Some (js ''eu'')) (Some (Fin 300))
     (Some (\<lambda>r t. JSNumber (Fin 50))) (Some (EpochMs (Fin 0))) = (Declared (Fin 300), [])"
proof -
  have h: "num_gt (Fin 300) (Fin 0)" by (simp add: num_gt_def)
  from explicit_grid_intensity_wins [OF h] h show ?thesis by simp
qed

section \<open>Grid intensity: the resolver's answer\<close>

text \<open>
  Claim C5 says that a resolver's answer is used only if it is a finite number above
  zero, and that a non-finite answer falls through to the table.  The test of the source
  is \<^verbatim>\<open>typeof resolved === "number" && resolved > 0\<close>, which \<open>Infinity\<close> passes: with a
  resolver that answers \<open>Infinity\<close> the intensity is \<open>Infinity\<close>, not the table's
  entry for the region.  So claim C5 fails there.
\<close>

theorem resolver_infinity_counterexample:
  "resolveGridIntensity sampleHost (Some (js ''eu'')) None (Some infiniteResolver) None
     = (Declared PInf, [ResolverCalled (Some (Declared (js ''eu''))) None])
   \<and> \<not> Number_isFinite PInf
   \<and> resolveGridIntensity sampleHost (Some (js ''eu'')) None None None
     = (Declared (Fin (7396106856793375 / 35184372088832)), [])"
  by code_simp

text \<open>
  Claim C5, amended.  With no explicit \<^verbatim>\<open>gridCarbonIntensityGPerKwh\<close> and a resolver
  supplied, the resolver is called once with the normalised region and the timestamp,
  and its answer is used exactly when it is a number above zero (\<open>Infinity\<close>
  included).  For every other answer (a number that is zero, negative or \<open>NaN\<close>, or a
  value that is not a number) the resolution does not stop: it goes on as it does without
  a resolver, to the table's entry for the normalised region when the region and the
  entry are truthy, else to the entry for \<open>global\<close>, with the same warning.
\<close>

theorem resolver_value_validated:
  assumes "f (normalizeRegion env rg) ts = answer"
  shows "(\<forall>v. answer = JSNumber v \<and> num_gt v (Fin 0) \<longrightarrow>
            resolveGridIntensity env rg None (Some f) ts
              = (Declared v, [ResolverCalled (normalizeRegion env rg) ts]))
       \<and> ((\<forall>v. answer = JSNumber v \<longrightarrow> \<not> num_gt v (Fin 0)) \<longrightarrow>
            fst (resolveGridIntensity env rg None (Some f) ts) = tableIntensity env rg
            \<and> fst (resolveGridIntensity env rg None (Some f) ts)
                = fst (resolveGridIntensity env rg None None ts)
            \<and> snd (resolveGridIntensity env rg None (Some f) ts)
                = ResolverCalled (normalizeRegion env rg) ts
                  # snd (resolveGridIntensity env rg None None ts))"
proof -
  have 1: "resolveGridIntensity env rg None (Some f) ts
             = (Declared v, [ResolverCalled (normalizeRegion env rg) ts])"
    if "answer = JSNumber v" "num_gt v (Fin 0)" for v
    using that assms by (simp add: resolveGridIntensity_def Let_def)
  have 2: "fst (resolveGridIntensity env rg None (Some f) ts) = tableIntensity env rg
         \<and> fst (resolveGridIntensity env rg None (Some f) ts)
             = fst (resolveGridIntensity env rg None None ts)
         \<and> snd (resolveGridIntensity env rg None (Some f) ts)
             = ResolverCalled (normalizeRegion env rg) ts
               # snd (resolveGridIntensity env rg None None ts)"
    if n: "\<forall>v. answer = JSNumber v \<longrightarrow> \<not> num_gt v (Fin 0)"
  proof -
    have r: "(case f (normalizeRegion env rg) ts of
                JSNumber r \<Rightarrow> if num_gt r (Fin 0) then Some r else None
              | JSOther \<Rightarrow> None) = None"
      using n assms by (cases answer) auto
    have a: "fst (resolveGridIntensity env rg None (Some f) ts)
               = fst (resolveGridIntensity env rg None None ts)"
      by (simp add: resolveGridIntensity_def Let_def r split: option.splits)
    have b: "snd (resolveGridIntensity env rg None (Some f) ts)
               = ResolverCalled (normalizeRegion env rg) ts
                 # snd (resolveGridIntensity env rg None None ts)"
      by (simp add: resolveGridIntensity_def Let_def r split: option.splits)
    from a b resolveGridIntensity_no_resolver [of env rg ts] show ?thesis by simp
  qed
  from 1 2 show ?thesis by blast
qed

theorem resolver_value_validated_witness:
  "ukResolver (normalizeRegion sampleHost (Some (160 # js ''uk''))) None = JSNumber (Fin 100)
   \<and> num_gt (Fin 100) (Fin 0)
   \<and> resolveGridIntensity sampleHost (Some (160 # js ''uk'')) None (Some ukResolver) None
       = (Declared (Fin 100), [ResolverCalled (Some (Declared (js ''uk''))) None])
   \<and> zeroResolver (normalizeRegion sampleHost (Some (js ''atlantis''))) None = JSNumber (Fin 0)
   \<and> \<not> num_gt (Fin 0) (Fin 0)
   \<and> fst (resolveGridIntensity sampleHost (Some (js ''atlantis'')) None (Some zeroResolver) None)
       = tableIntensity sampleHost (Some (js ''atlantis''))
   \<and> tableIntensity sampleHost (Some (js ''atlantis'')) = Declared (Fin 475)
   \<and> snd (resolveGridIntensity sampleHost (Some (js ''atlantis'')) None (Some zeroResolver) None)
       = [ResolverCalled None None, ConsoleWarn (js ''atlantis'')]"
proof -
  let ?uk = "Some (160 # js ''uk'')"
  let ?at = "Some (js ''atlantis'')"
  have ku: "normalizeRegion sampleHost ?uk = Some (Declared (js ''uk''))" by code_simp
  have hu: "ukResolver (normalizeRegion sampleHost ?uk) None = JSNumber (Fin 100)"
    unfolding ku by (simp add: ukResolver_def)
  have pu: "num_gt (Fin 100) (Fin 0)" by (simp add: num_gt_def)
  have h: "zeroResolver (normalizeRegion sampleHost ?at) None = JSNumber (Fin 0)"
    by (simp add: zeroResolver_def)
  have n: "\<not> num_gt (Fin 0) (Fin 0)" by (simp add: num_gt_def)
  have t: "tableIntensity sampleHost ?at = Declared (Fin 475)" by code_simp
  have s: "snd (resolveGridIntensity sampleHost ?at None None None)
             = [ConsoleWarn (js ''atlantis'')]" by code_simp
  have k: "normalizeRegion sampleHost ?at = None" by code_simp
  from resolver_value_validated
         [of ukResolver sampleHost ?uk None "JSNumber (Fin 100)", OF hu, THEN conjunct1] pu
  have u: "resolveGridIntensity sampleHost ?uk None (Some ukResolver) None
             = (Declared (Fin 100), [ResolverCalled (normalizeRegion sampleHost ?uk) None])"
    by blast
  from resolver_value_validated
         [of zeroResolver sampleHost ?at None "JSNumber (Fin 0)", OF h, THEN conjunct2] n
  have z: "fst (resolveGridIntensity sampleHost ?at None (Some zeroResolver) None)
          = tableIntensity sampleHost ?at
        \<and> snd (resolveGridIntensity sampleHost ?at None (Some zeroResolver) None)
          = ResolverCalled (normalizeRegion sampleHost ?at) None
            # snd (resolveGridIntensity sampleHost ?at None None None)"
    by simp
  from u z hu pu h n t s k ku show ?thesis by simp
qed

section \<open>The envelope of a range\<close>

text \<open>
  Claim C6 ends on a particular case: with the range
  \<^verbatim>\<open>{ efficiencyFactor: { min: 1, max: 2 } }\<close> alone, \<^verbatim>\<open>energyKwhMin\<close> is the high
  evaluation's energy and \<^verbatim>\<open>energyKwhMax\<close> the low one's.  At \<open>cornerInput\<close> the power
  overflows to \<open>Infinity\<close> (\<open>2 ^ 1023 + 2 ^ 1023\<close>) and the halved time underflows to
  zero (\<^verbatim>\<open>Number.MIN_VALUE / 2\<close>), so the high evaluation's energy is
  \<^verbatim>\<open>Infinity * 0\<close>, that is \<open>NaN\<close>, the low one's is \<open>Infinity\<close>, and
  \<^verbatim>\<open>Math.max(Infinity, NaN)\<close> is \<open>NaN\<close>: \<^verbatim>\<open>energyKwhMax\<close> is not the low evaluation's
  energy.  So the particular case of claim C6 fails there.
\<close>

theorem efficiency_range_corner_counterexample:
  "\<not> hasEnergyOverride cornerInput
   \<and> map_sum id ImpactResult.energyKwh
       (estimateImpact sampleHost
          (buildInputWithRanges cornerInput (efficiencyFactorOnly (Fin 1) (Fin 2)) PickMin))
     = Inr PInf
   \<and> map_sum id ImpactResult.energyKwh
       (estimateImpact sampleHost
          (buildInputWithRanges cornerInput (efficiencyFactorOnly (Fin 1) (Fin 2)) PickMax))
     = Inr NaN
   \<and> map_sum id energyKwhMax
       (estimateImpactRange sampleHost cornerInput (efficiencyFactorOnly (Fin 1) (Fin 2)))
     = Inr NaN"
proof -
  let ?R = "efficiencyFactorOnly (Fin 1) (Fin 2)"
  have o: "\<not> hasEnergyOverride cornerInput"
    by (simp add: hasEnergyOverride_def cornerInput_def truthy_opt_def)
  have lo: "map_sum id ImpactResult.energyKwh
              (estimateImpact sampleHost (buildInputWithRanges cornerInput ?R PickMin))
            = Inr PInf"
    using cornerEnergy [of "Fin 1"] by (simp add: buildInputWithRanges_efficiencyFactorOnly)
  have hi: "map_sum id ImpactResult.energyKwh
              (estimateImpact sampleHost (buildInputWithRanges cornerInput ?R PickMax))
            = Inr NaN"
    using cornerEnergy [of "Fin 2"] by (simp add: buildInputWithRanges_efficiencyFactorOnly)
  have "map_sum id ImpactResult.energyKwh (estimateImpact sampleHost cornerInput) = Inr PInf"
  proof (rule estimateImpact_given_time)
    show "resolveEnergyKwh (ImpactInputs.energy cornerInput) = None"
      by (simp add: cornerInput_def resolveEnergyKwh_def)
    show "computeEffectivePowerW cornerInput
            = Inr (PInf, [BasePowerNote PInf, OverheadFactorNote (Fin 1), PueNote (Fin 1)])"
      by (rule cornerPower)
    show "ImpactInputs.processingTimeSeconds cornerInput = Some (Fin (1 / 2 ^ 1074))"
      by (simp add: cornerInput_def)
    show "positive (Fin (1 / 2 ^ 1074))" by (simp add: positive_def num_gt_def)
    show "applyEfficiencyToTime (Fin (1 / 2 ^ 1074)) (ImpactInputs.efficiency cornerInput)
            = Inr (Fin (1 / 2 ^ 1074))"
      by (simp add: applyEfficiencyToTime_cases cornerInput_def)
    show "applyBatchSize
            (num_div (num_div (num_mul PInf (Fin (1 / 2 ^ 1074))) (Fin 3600)) (Fin 1000))
            (ImpactInputs.efficiency cornerInput)
          = Inr PInf"
      by (simp add: applyBatchSize_cases cornerInput_def)
  qed
  then obtain b where b: "estimateImpact sampleHost cornerInput = Inr b"
    by (auto simp: map_sum_Inr)
  from lo obtain l where l: "estimateImpact sampleHost
        (buildInputWithRanges cornerInput ?R PickMin) = Inr l" "ImpactResult.energyKwh l = PInf"
    by (auto simp: map_sum_Inr)
  from hi obtain h where h: "estimateImpact sampleHost
        (buildInputWithRanges cornerInput ?R PickMax) = Inr h" "ImpactResult.energyKwh h = NaN"
    by (auto simp: map_sum_Inr)
  have v: "validateRanges ?R = Inr ()"
    by (simp add: validateRanges_def efficiencyFactorOnly_def noRanges_def validateRange_def
          requirePositive_alt positive_Fin)
  have "map_sum id energyKwhMax (estimateImpactRange sampleHost cornerInput ?R) = Inr NaN"
    unfolding estimateImpactRange_alt v using o b l h by (simp add: Math_max_def)
  with o lo hi show ?thesis by blast
qed

text \<open>
  Claim C6, amended.  For an input without an energy override (neither energy field
  truthy), what \<^verbatim>\<open>estimateImpactRange\<close> returns comes from two more runs of the
  estimator, \<open>low\<close> on the all-mins input and \<open>high\<close> on the all-maxes input (every
  field that has a range at the min, respectively the max, of its range, every other
  field as in the input: \<open>allBounds\<close>): its energy bounds are \<^verbatim>\<open>Math.min\<close> and
  \<^verbatim>\<open>Math.max\<close> of the two energies, its carbon bounds those of the two carbon figures,
  whichever run gave the smaller one.  In particular, with the range
  \<^verbatim>\<open>{ efficiencyFactor: { min: 1, max: 2 } }\<close> alone, \<open>low\<close> is the estimator's result
  for the input with \<^verbatim>\<open>efficiencyFactor\<close> 1 and \<open>high\<close> its result with
  \<^verbatim>\<open>efficiencyFactor\<close> 2, and when neither of the two energies is \<open>NaN\<close> the energy
  of \<open>high\<close> is at most that of \<open>low\<close>, \<^verbatim>\<open>energyKwhMin\<close> is the energy of \<open>high\<close>
  and \<^verbatim>\<open>energyKwhMax\<close> the energy of \<open>low\<close>.
\<close>

theorem range_envelope:
  assumes "\<not> hasEnergyOverride inp"
    and "estimateImpactRange env inp ranges = Inr rr"
  shows "\<exists>low high.
           estimateImpact env (buildInputWithRanges inp ranges PickMin) = Inr low
         \<and> estimateImpact env (buildInputWithRanges inp ranges PickMax) = Inr high
         \<and> estimateImpact env inp = Inr (base rr)
         \<and> energyKwhMin rr = Math_min (ImpactResult.energyKwh low) (ImpactResult.energyKwh high)
         \<and> energyKwhMax rr = Math_max (ImpactResult.energyKwh low) (ImpactResult.energyKwh high)
         \<and> co2GramsMin rr = Math_min (ImpactResult.co2Grams low) (ImpactResult.co2Grams high)
         \<and> co2GramsMax rr = Math_max (ImpactResult.co2Grams low) (ImpactResult.co2Grams high)
         \<and> allBounds PickMin ranges inp (buildInputWithRanges inp ranges PickMin)
         \<and> allBounds PickMax ranges inp (buildInputWithRanges inp ranges PickMax)
         \<and> (ranges = efficiencyFactorOnly (Fin 1) (Fin 2) \<longrightarrow>
              estimateImpact env (withEfficiencyFactor inp (Fin 1)) = Inr low
              \<and> estimateImpact env (withEfficiencyFactor inp (Fin 2)) = Inr high
              \<and> (ImpactResult.energyKwh low \<noteq> NaN \<and> ImpactResult.energyKwh high \<noteq> NaN \<longrightarrow>
                   num_le (ImpactResult.energyKwh high) (ImpactResult.energyKwh low)
                   \<and> energyKwhMin rr = ImpactResult.energyKwh high
                   \<and> energyKwhMax rr = ImpactResult.energyKwh low))"
proof -
  from assms obtain low high where
    low: "estimateImpact env (buildInputWithRanges inp ranges PickMin) = Inr low"
    and high: "estimateImpact env (buildInputWithRanges inp ranges PickMax) = Inr high"
    and b: "estimateImpact env inp = Inr (base rr)"
    and emin: "energyKwhMin rr
                 = Math_min (ImpactResult.energyKwh low) (ImpactResult.energyKwh high)"
    and emax: "energyKwhMax rr
                 = Math_max (ImpactResult.energyKwh low) (ImpactResult.energyKwh high)"
    and cmin: "co2GramsMin rr
                 = Math_min (ImpactResult.co2Grams low) (ImpactResult.co2Grams high)"
    and cmax: "co2GramsMax rr
                 = Math_max (ImpactResult.co2Grams low) (ImpactResult.co2Grams high)"
    unfolding estimateImpactRange_alt by (auto simp: and_then_eq_Inr)
  have runs: "estimateImpact env (withEfficiencyFactor inp (Fin 1)) = Inr low
              \<and> estimateImpact env (withEfficiencyFactor inp (Fin 2)) = Inr high"
    if r: "ranges = efficiencyFactorOnly (Fin 1) (Fin 2)"
    using low high by (simp add: r buildInputWithRanges_efficiencyFactorOnly)
  have dir: "num_le (ImpactResult.energyKwh high) (ImpactResult.energyKwh low)
             \<and> energyKwhMin rr = ImpactResult.energyKwh high
             \<and> energyKwhMax rr = ImpactResult.energyKwh low"
    if r: "ranges = efficiencyFactorOnly (Fin 1) (Fin 2)"
      and n: "ImpactResult.energyKwh low \<noteq> NaN" "ImpactResult.energyKwh high \<noteq> NaN"
  proof -
    have e: "resolveEnergyKwh (ImpactInputs.energy inp) = None"
      using assms(1) by (rule no_override_resolveEnergyKwh)
    have p1: "positive (Fin 1)" and p2: "positive (Fin 2)" by (simp_all add: positive_Fin)
    from low have low': "estimateImpact env (withEfficiencyFactor inp (Fin 1)) = Inr low"
      by (simp add: r buildInputWithRanges_efficiencyFactorOnly)
    from high have high': "estimateImpact env (withEfficiencyFactor inp (Fin 2)) = Inr high"
      by (simp add: r buildInputWithRanges_efficiencyFactorOnly)
    from estimateImpact_withEfficiencyFactor [OF e p1 low'] obtain p ns t where
      pw: "computeEffectivePowerW inp = Inr (p, ns)" and src: "timeSource inp t"
      and el: "applyBatchSize
                 (num_div (num_div (num_mul p (num_div t (Fin 1))) (Fin 3600)) (Fin 1000))
                 (ImpactInputs.efficiency inp)
               = Inr (ImpactResult.energyKwh low)"
      by blast
    from estimateImpact_withEfficiencyFactor [OF e p2 high'] obtain p' ns' t' where
      pw': "computeEffectivePowerW inp = Inr (p', ns')" and src': "timeSource inp t'"
      and eh': "applyBatchSize
                 (num_div (num_div (num_mul p' (num_div t' (Fin 2))) (Fin 3600)) (Fin 1000))
                 (ImpactInputs.efficiency inp)
               = Inr (ImpactResult.energyKwh high)"
      by blast
    have "p' = p" using pw pw' by simp
    moreover have "t' = t" using src src' by (rule timeSource_unique [symmetric])
    ultimately have eh: "applyBatchSize
                 (num_div (num_div (num_mul p (num_div t (Fin 2))) (Fin 3600)) (Fin 1000))
                 (ImpactInputs.efficiency inp)
               = Inr (ImpactResult.energyKwh high)"
      using eh' by simp
    have "num_le (ImpactResult.energyKwh high) (ImpactResult.energyKwh low)"
      using notNegative_power [OF pw] timeSource_notNegative [OF src] el eh n
      by (rule energy_halved_le)
    then show ?thesis
      unfolding emin emax by (simp add: Math_min_le Math_max_le)
  qed
  note ab = allBounds_buildInputWithRanges [of PickMin ranges inp]
    allBounds_buildInputWithRanges [of PickMax ranges inp]
  from low high b emin emax cmin cmax ab runs dir show ?thesis by blast
qed

theorem range_envelope_witness:
  "\<not> hasEnergyOverride sampleInput
   \<and> estimateImpactRange sampleHost sampleInput (efficiencyFactorOnly (Fin 1) (Fin 2))
       = Inr efficiencyRangeResult
   \<and> estimateImpact sampleHost
         (buildInputWithRanges sampleInput (efficiencyFactorOnly (Fin 1) (Fin 2)) PickMin)
       = Inr sampleResult
   \<and> estimateImpact sampleHost
         (buildInputWithRanges sampleInput (efficiencyFactorOnly (Fin 1) (Fin 2)) PickMax)
       = Inr efficiencyResult
   \<and> energyKwhMin efficiencyRangeResult = ImpactResult.energyKwh efficiencyResult
   \<and> energyKwhMax efficiencyRangeResult = ImpactResult.energyKwh sampleResult"
proof -
  let ?R = "efficiencyFactorOnly (Fin 1) (Fin 2)"
  have h1: "\<not> hasEnergyOverride sampleInput"
    by (simp add: hasEnergyOverride_def sampleInput_def truthy_opt_def)
  have l: "estimateImpact sampleHost (buildInputWithRanges sampleInput ?R PickMin)
             = Inr sampleResult"
    by code_simp
  have h: "estimateImpact sampleHost (buildInputWithRanges sampleInput ?R PickMax)
             = Inr efficiencyResult"
    by (simp add: sample_high_input efficiency_estimate)
  have h2: "estimateImpactRange sampleHost sampleInput ?R = Inr efficiencyRangeResult"
    by (simp add: estimateImpactRange_alt validateRanges_efficiencyFactorOnly
          sample_estimate h1 l h efficiencyRangeResult_def sampleResult_def
          efficiencyResult_def Math_min_def Math_max_def)
  have n: "ImpactResult.energyKwh sampleResult \<noteq> NaN"
    "ImpactResult.energyKwh efficiencyResult \<noteq> NaN"
    by (simp_all add: sampleResult_def efficiencyResult_def)
  from range_envelope [OF h1 h2] l h n
  have "energyKwhMin efficiencyRangeResult = ImpactResult.energyKwh efficiencyResult
        \<and> energyKwhMax efficiencyRangeResult = ImpactResult.energyKwh sampleResult"
    by auto
  with h1 h2 l h show ?thesis by blast
qed

section \<open>Ranges under an energy override\<close>



section \<open>A supplied CPU or network power\<close>

text \<open>
  Claim C8 says that a \<^verbatim>\<open>cpuPowerW\<close> or \<^verbatim>\<open>networkPowerW\<close> supplied as 0 raises an
  error naming the field.  The source validates the field under
  \<^verbatim>\<open>if (cpuPowerW)\<close>, and 0 is falsy: with \<^verbatim>\<open>cpuPowerW: 0\<close> the estimator returns
  what it returns without the field.  So claim C8 fails at \<open>zeroCpuInput\<close>.
\<close>

theorem zero_cpu_counterexample:
  "ImpactInputs.cpuPowerW zeroCpuInput = Some (Fin 0)
   \<and> estimateImpact sampleHost zeroCpuInput = Inr sampleResult
   \<and> estimateImpact sampleHost sampleInput = Inr sampleResult"
proof -
  have "estimateImpact sampleHost zeroCpuInput = Inr sampleResult" by code_simp
  moreover have "estimateImpact sampleHost sampleInput = Inr sampleResult"
    by (rule sample_estimate)
  ultimately show ?thesis by (simp add: zeroCpuInput_def)
qed

text \<open>
  Claim C8, amended.  With a valid \<^verbatim>\<open>gpuPowerW\<close>: a supplied \<^verbatim>\<open>cpuPowerW\<close> that is
  negative or infinite makes the estimator raise the error naming \<^verbatim>\<open>cpuPowerW\<close>;
  when \<^verbatim>\<open>cpuPowerW\<close> is not such a value, a supplied \<^verbatim>\<open>networkPowerW\<close> that is
  negative or infinite makes it raise the error naming \<^verbatim>\<open>networkPowerW\<close>; and a
  field supplied as 0 raises nothing and gives what omitting the field gives.
\<close>

theorem supplied_power_validation:
  assumes "positive (ImpactInputs.gpuPowerW inp)"
  shows "(\<forall>c. ImpactInputs.cpuPowerW inp = Some c \<and> rejected c \<longrightarrow>
            estimateImpact env inp = Inl (MustBePositive ''cpuPowerW''))
       \<and> (\<forall>n. (\<forall>c. ImpactInputs.cpuPowerW inp = Some c \<longrightarrow> \<not> rejected c)
              \<and> ImpactInputs.networkPowerW inp = Some n \<and> rejected n \<longrightarrow>
            estimateImpact env inp = Inl (MustBePositive ''networkPowerW''))
       \<and> estimateImpact env (inp\<lparr>cpuPowerW := Some (Fin 0)\<rparr>)
           = estimateImpact env (inp\<lparr>cpuPowerW := None\<rparr>)
       \<and> estimateImpact env (inp\<lparr>networkPowerW := Some (Fin 0)\<rparr>)
           = estimateImpact env (inp\<lparr>networkPowerW := None\<rparr>)"
proof -
  have 1: "estimateImpact env inp = Inl (MustBePositive ''cpuPowerW'')"
    if "ImpactInputs.cpuPowerW inp = Some c" "rejected c" for c
    using that assms
    by (intro estimateImpact_power_error)
       (simp add: computeEffectivePowerW_cases Let_def rejected_iff)
  have 2: "estimateImpact env inp = Inl (MustBePositive ''networkPowerW'')"
    if "\<forall>c. ImpactInputs.cpuPowerW inp = Some c \<longrightarrow> \<not> rejected c"
      "ImpactInputs.networkPowerW inp = Some n" "rejected n" for n
    using that assms
    by (intro estimateImpact_power_error)
       (auto simp: computeEffectivePowerW_cases Let_def rejected_iff truthy_def
          split: option.splits)
  have 3: "estimateImpact env (inp\<lparr>cpuPowerW := Some (Fin 0)\<rparr>)
           = estimateImpact env (inp\<lparr>cpuPowerW := None\<rparr>)"
    by (simp add: estimateImpact_def computeEffectivePowerW_zero_cpu
          cong: option.case_cong if_cong)
  have 4: "estimateImpact env (inp\<lparr>networkPowerW := Some (Fin 0)\<rparr>)
           = estimateImpact env (inp\<lparr>networkPowerW := None\<rparr>)"
    by (simp add: estimateImpact_def computeEffectivePowerW_zero_network
          cong: option.case_cong if_cong)
  from 1 2 3 4 show ?thesis by blast
qed

theorem supplied_power_validation_witness:
  "positive (ImpactInputs.gpuPowerW negativeCpuInput)
   \<and> ImpactInputs.cpuPowerW negativeCpuInput = Some (Fin (- 5))
   \<and> rejected (Fin (- 5))
   \<and> estimateImpact sampleHost negativeCpuInput = Inl (MustBePositive ''cpuPowerW'')"
proof -
  have h: "positive (ImpactInputs.gpuPowerW negativeCpuInput)"
    by (simp add: negativeCpuInput_def sampleInput_def positive_Fin)
  have c: "ImpactInputs.cpuPowerW negativeCpuInput = Some (Fin (- 5))"
    by (simp add: negativeCpuInput_def)
  have r: "rejected (Fin (- 5))" by (simp add: rejected_def)
  from supplied_power_validation [OF h, of sampleHost, THEN conjunct1] c r
  have "estimateImpact sampleHost negativeCpuInput = Inl (MustBePositive ''cpuPowerW'')"
    by blast
  with h c r show ?thesis by blast
qed

section \<open>Aggregation\<close>

text \<open>
  Claim C9 says that aggregating a permutation of a list gives the same
  \<^verbatim>\<open>energyKwh\<close> and \<^verbatim>\<open>co2Grams\<close>.  The totals are floating-point sums taken from
  left to right, and floating-point addition is not associative: for results of 0.2,
  0.3 and 0.1 kWh the order \<open>[a, b, c]\<close> totals 0.6 and the order \<open>[c, a, b]\<close>
  totals 0.6000000000000001.  So claim C9 fails there.
\<close>

theorem aggregate_order_counterexample:
  "mset [fifthResult, threeTenthsResult, tenthResult]
     = mset [tenthResult, fifthResult, threeTenthsResult]
   \<and> AggregateImpactResult.energyKwh
       (aggregateImpacts [fifthResult, threeTenthsResult, tenthResult])
     = Fin (5404319552844595 / 9007199254740992)
   \<and> AggregateImpactResult.energyKwh
       (aggregateImpacts [tenthResult, fifthResult, threeTenthsResult])
     = Fin (5404319552844596 / 9007199254740992)"
proof -
  have "mset [fifthResult, threeTenthsResult, tenthResult]
          = mset [tenthResult, fifthResult, threeTenthsResult]"
    by (simp add: add_mset_commute)
  moreover have "AggregateImpactResult.energyKwh
       (aggregateImpacts [fifthResult, threeTenthsResult, tenthResult])
     = Fin (5404319552844595 / 9007199254740992)"
    by code_simp
  moreover have "AggregateImpactResult.energyKwh
       (aggregateImpacts [tenthResult, fifthResult, threeTenthsResult])
     = Fin (5404319552844596 / 9007199254740992)"
    by code_simp
  ultimately show ?thesis by blast
qed

text \<open>
  Claim C9, amended.  \<^verbatim>\<open>aggregateImpacts\<close> of the empty list is
  \<^verbatim>\<open>{count: 0, energyKwh: 0, co2Grams: 0}\<close>; the count is the length of the list, so
  the same for every permutation; and the energy and carbon totals of a list and of a
  permutation of it are the same whenever no partial sum is rounded in either order
  (\<open>exactSum\<close>).  Otherwise the two totals may differ by the rounding.
\<close>

theorem aggregate_order:
  shows "aggregateImpacts [] =
           \<lparr>count = 0, AggregateImpactResult.energyKwh = Fin 0,
            AggregateImpactResult.co2Grams = Fin 0\<rparr>
       \<and> count (aggregateImpacts xs) = length xs
       \<and> (mset xs = mset ys \<longrightarrow> count (aggregateImpacts xs) = count (aggregateImpacts ys))
       \<and> (mset xs = mset ys
            \<and> exactSum 0 (map ImpactResult.energyKwh xs)
            \<and> exactSum 0 (map ImpactResult.energyKwh ys)
            \<and> exactSum 0 (map ImpactResult.co2Grams xs)
            \<and> exactSum 0 (map ImpactResult.co2Grams ys) \<longrightarrow>
            aggregateImpacts xs = aggregateImpacts ys)"
proof -
  have 1: "aggregateImpacts [] =
           \<lparr>count = 0, AggregateImpactResult.energyKwh = Fin 0,
            AggregateImpactResult.co2Grams = Fin 0\<rparr>"
    by (simp add: aggregateImpacts_def)
  have 2: "count (aggregateImpacts zs) = length zs" for zs
    by (simp add: aggregateImpacts_step foldl_step_count)
  have 3: "count (aggregateImpacts xs) = count (aggregateImpacts ys)" if "mset xs = mset ys"
    using mset_eq_length [OF that] by (simp add: 2)
  have e: "AggregateImpactResult.energyKwh (aggregateImpacts zs)
             = Fin (sum_list (map (finite_value \<circ> ImpactResult.energyKwh) zs))"
    if "exactSum 0 (map ImpactResult.energyKwh zs)" for zs
    using foldl_exact [OF that] by (simp add: aggregateImpacts_step foldl_step_energy)
  have c: "AggregateImpactResult.co2Grams (aggregateImpacts zs)
             = Fin (sum_list (map (finite_value \<circ> ImpactResult.co2Grams) zs))"
    if "exactSum 0 (map ImpactResult.co2Grams zs)" for zs
    using foldl_exact [OF that] by (simp add: aggregateImpacts_step foldl_step_co2)
  have 4: "aggregateImpacts xs = aggregateImpacts ys"
    if "mset xs = mset ys"
      "exactSum 0 (map ImpactResult.energyKwh xs)" "exactSum 0 (map ImpactResult.energyKwh ys)"
      "exactSum 0 (map ImpactResult.co2Grams xs)" "exactSum 0 (map ImpactResult.co2Grams ys)"
  proof -
    have "AggregateImpactResult.energyKwh (aggregateImpacts xs)
            = AggregateImpactResult.energyKwh (aggregateImpacts ys)"
      using that by (simp add: e sum_list_perm [OF that(1)])
    moreover have "AggregateImpactResult.co2Grams (aggregateImpacts xs)
            = AggregateImpactResult.co2Grams (aggregateImpacts ys)"
      using that by (simp add: c sum_list_perm [OF that(1)])
    ultimately show ?thesis using 3 [OF that(1)] by simp
  qed
  from 1 2 3 4 show ?thesis by blast
qed

theorem aggregate_order_witness:
  "mset [resultWith (Fin 1) (Fin 2), resultWith (Fin 3) (Fin 4), resultWith (Fin 5) (Fin 6)]
     = mset [resultWith (Fin 5) (Fin 6), resultWith (Fin 1) (Fin 2), resultWith (Fin 3) (Fin 4)]
   \<and> exactSum 0 (map ImpactResult.energyKwh
        [resultWith (Fin 1) (Fin 2), resultWith (Fin 3) (Fin 4), resultWith (Fin 5) (Fin 6)])
   \<and> aggregateImpacts
        [resultWith (Fin 1) (Fin 2), resultWith (Fin 3) (Fin 4), resultWith (Fin 5) (Fin 6)]
     = aggregateImpacts
        [resultWith (Fin 5) (Fin 6), resultWith (Fin 1) (Fin 2), resultWith (Fin 3) (Fin 4)]
   \<and> count (aggregateImpacts
        [resultWith (Fin 5) (Fin 6), resultWith (Fin 1) (Fin 2), resultWith (Fin 3) (Fin 4)])
     = 3"
proof -
  let ?xs = "[resultWith (Fin 1) (Fin 2), resultWith (Fin 3) (Fin 4),
              resultWith (Fin 5) (Fin 6)]"
  let ?ys = "[resultWith (Fin 5) (Fin 6), resultWith (Fin 1) (Fin 2),
              resultWith (Fin 3) (Fin 4)]"
  have m: "mset ?xs = mset ?ys" by (simp add: add_mset_commute)
  have e: "exactSum 0 (map ImpactResult.energyKwh ?xs)"
    "exactSum 0 (map ImpactResult.energyKwh ?ys)"
    "exactSum 0 (map ImpactResult.co2Grams ?xs)"
    "exactSum 0 (map ImpactResult.co2Grams ?ys)"
    by (simp_all add: resultWith_def representable_def)
  note T = aggregate_order [of ?xs ?ys]
  from T m e have a: "aggregateImpacts ?xs = aggregateImpacts ?ys" by blast
  from T have "count (aggregateImpacts ?ys) = count (aggregateImpacts ?xs)"
    using m by simp
  moreover from T have "count (aggregateImpacts ?xs) = length ?xs" by blast
  ultimately have c: "count (aggregateImpacts ?ys) = 3" by simp
  from m e(1) a c show ?thesis by blast
qed

section \<open>A negative energy figure\<close>



end
